theory Spec2Isabelle
  imports Main "HOL-Library.Word" "HOL-Library.Sublist"
begin

section \<open>UTXO organisms: the ORG1 annotation, the covenant and the lineage scanner\<close>

text \<open>
  The development follows the repository file by file: the JavaScript primitives the
  scanner relies on, \<^verbatim>\<open>decodeORG1\<close> and \<^verbatim>\<open>traceLineage\<close> of
  \<^verbatim>\<open>scanner.cjs\<close>, the contract method \<^verbatim>\<open>Organism.claim\<close> of
  \<^verbatim>\<open>src/contracts/organism.ts\<close>, and the transaction builders of
  \<^verbatim>\<open>claim.cjs\<close> and \<^verbatim>\<open>fund.cjs\<close>.
\<close>

subsection \<open>JavaScript values\<close>

type_synonym byte = "8 word"

text \<open>
  A JavaScript number as the scanner uses it: an integer or \<^verbatim>\<open>NaN\<close>. Every
  integer the code computes with stays far below \<open>2 ^ 53\<close>, where doubles are exact;
  the one value that can exceed it is the \<^verbatim>\<open>type\<close> parsed from a type push
  declared longer than six bytes, which JavaScript rounds to the nearest double and this
  model keeps exact.
\<close>

datatype number = NaN | Num int

fun nadd :: "number \<Rightarrow> number \<Rightarrow> number" where
  "nadd (Num a) (Num b) = Num (a + b)"
| "nadd _ _ = NaN"

fun nmul :: "number \<Rightarrow> number \<Rightarrow> number" where
  "nmul (Num a) (Num b) = Num (a * b)"
| "nmul _ _ = NaN"

datatype error =
    RangeError  \<comment> \<open>thrown by the \<^verbatim>\<open>Buffer\<close> reads and writes out of range\<close>
  | TypeError   \<comment> \<open>a property read on \<^verbatim>\<open>undefined\<close>\<close>
  | FetchError  \<comment> \<open>\<^verbatim>\<open>wocGet\<close> rejected: network failure or a body that is not JSON\<close>
  | Exit1       \<comment> \<open>\<^verbatim>\<open>process.exit(1)\<close> after a message\<close>
  | Int2ByteStringError \<comment> \<open>\<^verbatim>\<open>int2ByteString\<close>: the value does not fit the size\<close>
  | AssertError \<comment> \<open>a failed \<^verbatim>\<open>assert\<close> of the contract\<close>
  | NotNaturalNumber \<comment> \<open>\<^verbatim>\<open>bsv\<close>: "Output satoshis is not a natural number"\<close>

text \<open>The value of a hexadecimal digit, either case; \<open>None\<close> for any other character.\<close>

definition hexval :: "char \<Rightarrow> nat option" where
  "hexval c =
     (let n = (of_char c :: nat) in
      if 48 \<le> n \<and> n \<le> 57 then Some (n - 48)
      else if 97 \<le> n \<and> n \<le> 102 then Some (n - 87)
      else if 65 \<le> n \<and> n \<le> 70 then Some (n - 55)
      else None)"

text \<open>The values of the longest prefix of hexadecimal digits.\<close>

fun hexDigits :: "string \<Rightarrow> nat list" where
  "hexDigits [] = []"
| "hexDigits (c # cs) = (case hexval c of None \<Rightarrow> [] | Some d \<Rightarrow> d # hexDigits cs)"

text \<open>
  White space that \<^verbatim>\<open>parseInt\<close> skips, among the code units up to 255: TAB, LF,
  VT, FF, CR, SP and NBSP.
\<close>

definition isWhiteSpace :: "char \<Rightarrow> bool" where
  "isWhiteSpace c \<longleftrightarrow> (of_char c :: nat) \<in> {9, 10, 11, 12, 13, 32, 160}"

text \<open>
  \<^verbatim>\<open>parseInt(s, 16)\<close>: leading white space is skipped, a sign is read, a
  \<^verbatim>\<open>0x\<close> or \<^verbatim>\<open>0X\<close> prefix is dropped, and the longest prefix of hexadecimal
  digits is the value; with no digit the result is \<^verbatim>\<open>NaN\<close>.
\<close>

definition parseInt16 :: "string \<Rightarrow> number" where
  "parseInt16 s =
     (let s1 = dropWhile isWhiteSpace s;
          sign = (case s1 of c # _ \<Rightarrow> if c = CHR ''-'' then (-1 :: int) else 1 | [] \<Rightarrow> 1);
          s2 = (case s1 of c # r \<Rightarrow> if c = CHR ''-'' \<or> c = CHR ''+'' then r else s1 | [] \<Rightarrow> s1);
          s3 = (case s2 of a # b # r \<Rightarrow>
                  if a = CHR ''0'' \<and> (b = CHR ''x'' \<or> b = CHR ''X'') then r else s2
                | _ \<Rightarrow> s2);
          ds = hexDigits s3
      in if ds = [] then NaN else Num (sign * int (foldl (\<lambda>acc d. 16 * acc + d) 0 ds)))"

text \<open>
  \<^verbatim>\<open>String.prototype.slice(start, end)\<close>: \<^verbatim>\<open>NaN\<close> counts as 0, a negative
  index counts from the end, both indices are clamped to the string, and the result is
  empty when the start is not before the end.
\<close>

definition sliceIndex :: "nat \<Rightarrow> number \<Rightarrow> nat" where
  "sliceIndex len x =
     (case x of NaN \<Rightarrow> 0
      | Num v \<Rightarrow> if v < 0 then nat (max (int len + v) 0) else nat (min v (int len)))"

definition slice :: "string \<Rightarrow> number \<Rightarrow> number \<Rightarrow> string" where
  "slice s a b =
     (let from = sliceIndex (length s) a; to = sliceIndex (length s) b
      in take (to - from) (drop from s))"

text \<open>\<^verbatim>\<open>slice(start)\<close>, to the end of the string.\<close>

definition sliceFrom :: "string \<Rightarrow> number \<Rightarrow> string" where
  "sliceFrom s a = drop (sliceIndex (length s) a) s"

text \<open>\<^verbatim>\<open>String.prototype.indexOf\<close>: the first position where the pattern starts;
  \<open>None\<close> is the result \<open>-1\<close>.\<close>

fun indexOf :: "string \<Rightarrow> string \<Rightarrow> nat option" where
  "indexOf [] pat = (if pat = [] then Some 0 else None)"
| "indexOf (c # cs) pat =
     (if prefix pat (c # cs) then Some 0 else map_option Suc (indexOf cs pat))"

text \<open>
  \<^verbatim>\<open>Buffer.from(s, 'hex')\<close>: pairs of hexadecimal digits are decoded up to the first
  pair that is not one; an odd last character is dropped.
\<close>

fun bufferFromHex :: "string \<Rightarrow> byte list" where
  "bufferFromHex (a # b # rest) =
     (case hexval a of None \<Rightarrow> []
      | Some x \<Rightarrow> (case hexval b of None \<Rightarrow> []
          | Some y \<Rightarrow> word_of_nat (16 * x + y) # bufferFromHex rest))"
| "bufferFromHex _ = []"

text \<open>\<^verbatim>\<open>buf.readUInt32LE(0)\<close> throws when the buffer has fewer than four bytes.\<close>

fun readUInt32LE :: "byte list \<Rightarrow> error + int" where
  "readUInt32LE (b0 # b1 # b2 # b3 # _) =
     Inr (uint b0 + 256 * uint b1 + 65536 * uint b2 + 16777216 * uint b3)"
| "readUInt32LE _ = Inl RangeError"

text \<open>\<^verbatim>\<open>buf.writeUInt32LE(v)\<close> and \<^verbatim>\<open>buf.writeUInt8(v)\<close> on a fresh buffer of
  the exact size; both throw when the value is out of range.\<close>

definition writeUInt32LE :: "int \<Rightarrow> error + byte list" where
  "writeUInt32LE v =
     (if 0 \<le> v \<and> v \<le> 4294967295
      then Inr [word_of_int v, word_of_int (v div 256), word_of_int (v div 65536),
                word_of_int (v div 16777216)]
      else Inl RangeError)"

definition writeUInt8 :: "int \<Rightarrow> error + byte list" where
  "writeUInt8 v = (if 0 \<le> v \<and> v \<le> 255 then Inr [word_of_int v] else Inl RangeError)"

text \<open>Lower-case hexadecimal, as \<^verbatim>\<open>toString('hex')\<close> and the ledger API print it.\<close>

definition hexDigit :: "nat \<Rightarrow> char" where
  "hexDigit n = ''0123456789abcdef'' ! (n mod 16)"

definition toHex :: "byte list \<Rightarrow> string" where
  "toHex bs = concat (map (\<lambda>b. [hexDigit (unat b div 16), hexDigit (unat b mod 16)]) bs)"

subsection \<open>scanner.cjs: decodeORG1\<close>

text \<open>
  An output of a transaction as the ledger API returns it. \<open>sats\<close> is
  \<^verbatim>\<open>Math.round(value * 1e8)\<close>, the amount in satoshis (the API gives the amount in
  coins as a decimal; the conversion is left out). \<open>hex\<close> is
  \<^verbatim>\<open>scriptPubKey?.hex\<close> and \<open>addresses\<close> is \<^verbatim>\<open>scriptPubKey?.addresses\<close>,
  \<open>None\<close> when undefined. The field \<open>vouts\<close> of a transaction is its
  \<^verbatim>\<open>vout\<close> array; \<open>org1\<close> is the object the decoder returns, its hexadecimal
  strings kept as strings.
\<close>

record vout =
  sats :: int
  hex :: "string option"
  addresses :: "string list option"

record tx =
  vouts :: "vout list"
  blockheight :: "int option"
  blocktime :: "int option"

record org1 =
  type :: number
  generation :: int
  spawnTxid :: string
  payload :: string

definition ORG1 :: string where
  "ORG1 = ''4f524731''"

text \<open>The body of the loop after the length check: the three pushes and the payload.\<close>

definition decodeFields :: "string \<Rightarrow> error + org1" where
  "decodeFields after =
     (let pos0 = Num 0;
          typePushLen = parseInt16 (slice after pos0 (nadd pos0 (Num 2)));
          pos1 = nadd pos0 (Num 2);
          type' = parseInt16 (slice after pos1 (nadd pos1 (nmul typePushLen (Num 2))));
          pos2 = nadd pos1 (nmul typePushLen (Num 2));
          genPushLen = parseInt16 (slice after pos2 (nadd pos2 (Num 2)));
          pos3 = nadd pos2 (Num 2);
          genHex = slice after pos3 (nadd pos3 (nmul genPushLen (Num 2)));
          pos4 = nadd pos3 (nmul genPushLen (Num 2));
          genBuf = bufferFromHex genHex
      in case readUInt32LE genBuf of
           Inl e \<Rightarrow> Inl e
         | Inr generation' \<Rightarrow>
            (let spawnPushLen = parseInt16 (slice after pos4 (nadd pos4 (Num 2)));
                 pos5 = nadd pos4 (Num 2);
                 spawnTxid' = slice after pos5 (nadd pos5 (nmul spawnPushLen (Num 2)));
                 pos6 = nadd pos5 (nmul spawnPushLen (Num 2));
                 payload' = sliceFrom after pos6
             in Inr \<lparr>type = type', generation = generation', spawnTxid = spawnTxid',
                     payload = payload'\<rparr>))"

text \<open>
  The loop over the outputs: an output without a script, without the tag, or with fewer
  than 78 characters after the tag is passed over; the first other output decides.
  \<open>Inr None\<close> is the result \<^verbatim>\<open>null\<close>.
\<close>

fun decodeOuts :: "vout list \<Rightarrow> error + org1 option" where
  "decodeOuts [] = Inr None"
| "decodeOuts (out # rest) =
     (case hex out of
        None \<Rightarrow> decodeOuts rest
      | Some h \<Rightarrow>
          if h = [] then decodeOuts rest
          else (case indexOf h ORG1 of
                  None \<Rightarrow> decodeOuts rest
                | Some idx \<Rightarrow>
                    (let after = sliceFrom h (Num (int idx + 8))
                     in if length after < 2 + 2 + 8 + 2 + 64 then decodeOuts rest
                        else (case decodeFields after of
                                Inl e \<Rightarrow> Inl e
                              | Inr r \<Rightarrow> Inr (Some r)))))"

definition decodeORG1 :: "tx \<Rightarrow> error + org1 option" where
  "decodeORG1 t = decodeOuts (vouts t)"

text \<open>
  Outputs the loop passes over: no script, no tag, or fewer than 78 characters (39 bytes)
  after the first occurrence of the tag.
\<close>

definition passedOver :: "vout \<Rightarrow> bool" where
  "passedOver out =
     (case hex out of
        None \<Rightarrow> True
      | Some h \<Rightarrow> (case indexOf h ORG1 of None \<Rightarrow> True | Some idx \<Rightarrow> length h < idx + 8 + 78))"

text \<open>An annotation cut off right after the species push: \<^verbatim>\<open>006a 04 "ORG1" 01 00\<close>.\<close>

definition truncatedAfterSpecies :: tx where
  "truncatedAfterSpecies =
     \<lparr>vouts = [\<lparr>sats = 0, hex = Some ''006a044f5247310100'', addresses = None\<rparr>],
      blockheight = None, blocktime = None\<rparr>"

subsection \<open>scanner.cjs: traceLineage\<close>

text \<open>
  The ledger API behind \<^verbatim>\<open>wocGet\<close>: a request resolves to \<^verbatim>\<open>null\<close> on a
  404 (\<open>NotFound\<close>), to the parsed body (\<open>Found\<close>), or rejects (\<open>Rejected\<close>).
  \<open>getTx\<close> is \<^verbatim>\<open>/tx/<id>\<close>; \<open>getSpent\<close> is \<^verbatim>\<open>/tx/<id>/0/spent\<close>, whose
  body may or may not have a \<^verbatim>\<open>txid\<close>.
\<close>

datatype 'a response = NotFound | Found 'a | Rejected

record ledger =
  getTx :: "string \<Rightarrow> tx response"
  getSpent :: "string \<Rightarrow> string option response"

text \<open>
  A generation entry of the lineage file. \<open>blockTime\<close> is kept as the block time in
  seconds rather than as the ISO string made from it.
\<close>

record entry =
  entryGeneration :: nat
  txid :: string
  balance :: int
  claimer :: string
  entryReward :: int
  entryFee :: int
  blockHeight :: "int option"
  blockTime :: "int option"
  alive :: bool
  entryOrg1 :: "org1 option"
  spentBy :: "string option"

text \<open>Truthiness of a string that may be undefined or \<^verbatim>\<open>null\<close>.\<close>

definition truthy :: "string option \<Rightarrow> bool" where
  "truthy s = (case s of None \<Rightarrow> False | Some v \<Rightarrow> v \<noteq> [])"

text \<open>\<^verbatim>\<open>getRewardAddress\<close>: the first address of the last output that has one.\<close>

definition firstAddress :: "vout \<Rightarrow> string option" where
  "firstAddress out =
     (case addresses out of
        Some (a # _) \<Rightarrow> if a \<noteq> [] then Some a else None
      | _ \<Rightarrow> None)"

fun findAddress :: "vout list \<Rightarrow> string" where
  "findAddress [] = ''unknown''"
| "findAddress (out # rest) =
     (case firstAddress out of Some a \<Rightarrow> a | None \<Rightarrow> findAddress rest)"

definition getRewardAddress :: "tx \<Rightarrow> string" where
  "getRewardAddress t = findAddress (rev (vouts t))"

text \<open>The reward: the outputs after output 0 with a positive value and addresses.\<close>

definition rewardOf :: "vout list \<Rightarrow> int" where
  "rewardOf outs =
     sum_list (map sats (filter (\<lambda>out. sats out > 0 \<and> addresses out \<noteq> None) (tl outs)))"

text \<open>
  The variables of the loop, and the log of the \<^verbatim>\<open>/tx/<id>\<close> requests made so
  far (the log is not in the code; it records what the code asks the ledger).
\<close>

record walk =
  lineage :: "entry list"
  currentTxid :: "string option"
  walkGeneration :: nat
  fetched :: "string list"

text \<open>\<^verbatim>\<open>lineage[generation - 1].balance\<close> when \<^verbatim>\<open>generation > 0\<close> and the
  entry exists, else \<^verbatim>\<open>null\<close>.\<close>

definition prevBalance :: "walk \<Rightarrow> int option" where
  "prevBalance w =
     (if walkGeneration w > 0 \<and> walkGeneration w - 1 < length (lineage w)
      then Some (balance (lineage w ! (walkGeneration w - 1)))
      else None)"

text \<open>The entry built from a fetched transaction (with \<^verbatim>\<open>alive: true\<close>).\<close>

definition mkEntry :: "walk \<Rightarrow> string \<Rightarrow> tx \<Rightarrow> org1 option \<Rightarrow> entry" where
  "mkEntry w cur t org =
     (let isSpawn = (walkGeneration w = 0);
          balance' = sats (hd (vouts t));
          rewardSats = (if \<not> isSpawn then rewardOf (vouts t) else 0);
          feePaid = (case prevBalance w of
                       Some prev \<Rightarrow> prev - balance' - rewardSats
                     | None \<Rightarrow> 0)
      in \<lparr>entryGeneration = walkGeneration w,
          txid = cur,
          balance = balance',
          claimer = (if isSpawn then ''spawn'' else getRewardAddress t),
          entryReward = rewardSats,
          entryFee = feePaid,
          blockHeight = (if blockheight t = Some 0 then None else blockheight t),
          blockTime = (if blocktime t = Some 0 then None else blocktime t),
          alive = True,
          entryOrg1 = org,
          spentBy = None\<rparr>)"

datatype 'a loop = Break 'a | Next 'a

text \<open>
  One turn of the \<^verbatim>\<open>while\<close> loop for a truthy \<^verbatim>\<open>currentTxid\<close>. A rejected
  fetch, a transaction without outputs (\<^verbatim>\<open>organismOutput.value\<close> on
  \<^verbatim>\<open>undefined\<close>) and a throwing decoder leave the function with an exception; a
  rejected spent request is caught and counts as unspent.
\<close>

definition body :: "ledger \<Rightarrow> walk \<Rightarrow> string \<Rightarrow> error + walk loop" where
  "body L w cur =
     (let w1 = w\<lparr>fetched := fetched w @ [cur]\<rparr> in
      case getTx L cur of
        Rejected \<Rightarrow> Inl FetchError
      | NotFound \<Rightarrow> Inr (Break w1)
      | Found t \<Rightarrow>
          if vouts t = [] then Inl TypeError
          else (case decodeORG1 t of
                  Inl e \<Rightarrow> Inl e
                | Inr org \<Rightarrow>
                   (let e = mkEntry w cur t org;
                        spentInfo = (case getSpent L cur of Found i \<Rightarrow> i | _ \<Rightarrow> None)
                    in if truthy spentInfo
                       then Inr (Next (w1\<lparr>lineage := lineage w @ [e\<lparr>alive := False, spentBy := spentInfo\<rparr>],
                                          currentTxid := spentInfo,
                                          walkGeneration := walkGeneration w + 1\<rparr>))
                       else Inr (Next (w1\<lparr>lineage := lineage w @ [e],
                                          currentTxid := None\<rparr>)))))"

text \<open>
  The loop, with fuel: \<open>None\<close> when the fuel runs out before the loop ends (the chain of
  spends a ledger function describes need not be finite).
\<close>

fun walkLoop :: "nat \<Rightarrow> ledger \<Rightarrow> walk \<Rightarrow> (error + walk) option" where
  "walkLoop 0 L w = (if \<not> truthy (currentTxid w) then Some (Inr w) else None)"
| "walkLoop (Suc k) L w =
     (if \<not> truthy (currentTxid w) then Some (Inr w)
      else (case body L w (the (currentTxid w)) of
              Inl e \<Rightarrow> Some (Inl e)
            | Inr (Break w') \<Rightarrow> Some (Inr w')
            | Inr (Next w') \<Rightarrow> walkLoop k L w'))"

text \<open>
  Where the walk starts: from the spawn transaction, or from a cached lineage
  (\<open>None\<close>: no readable file).
\<close>

definition resume :: "entry list option \<Rightarrow> string \<Rightarrow> walk" where
  "resume cache spawn =
     (let fresh = \<lparr>lineage = [], currentTxid = Some spawn, walkGeneration = 0, fetched = []\<rparr>
      in case cache of
           None \<Rightarrow> fresh
         | Some existing \<Rightarrow>
             if length existing > 0
             then (let last' = last existing
                   in if truthy (spentBy last')
                      then \<lparr>lineage = existing, currentTxid = spentBy last',
                            walkGeneration = entryGeneration last' + 1, fetched = []\<rparr>
                      else if alive last'
                      then \<lparr>lineage = butlast existing, currentTxid = Some (txid last'),
                            walkGeneration = entryGeneration last', fetched = []\<rparr>
                      else fresh)
             else fresh)"

text \<open>
  What a call leaves behind when the loop ends without an exception: the lineage written
  to the file, the value returned (the summary reads \<^verbatim>\<open>living.alive\<close> of the last
  entry, a \<^verbatim>\<open>TypeError\<close> on an empty lineage), and the requests made.
\<close>

record outcome =
  persisted :: "entry list"
  returned :: "error + entry list"
  requests :: "string list"

definition traceLineage ::
    "nat \<Rightarrow> ledger \<Rightarrow> entry list option \<Rightarrow> string \<Rightarrow> (error + outcome) option" where
  "traceLineage n L cache spawn =
     (case walkLoop n L (resume cache spawn) of
        None \<Rightarrow> None
      | Some (Inl e) \<Rightarrow> Some (Inl e)
      | Some (Inr w) \<Rightarrow>
          Some (Inr \<lparr>persisted = lineage w,
                     returned = (if lineage w = [] then Inl TypeError else Inr (lineage w)),
                     requests = fetched w\<rparr>))"

text \<open>
  The lineage files the walker can have written: by a walk with no file, or by a walk
  that started from a file the walker wrote before.
\<close>

inductive walkerTrace :: "entry list \<Rightarrow> bool" where
  fromSpawn: "traceLineage n L None spawn = Some (Inr out) \<Longrightarrow> walkerTrace (persisted out)"
| resumed: "walkerTrace c \<Longrightarrow> traceLineage n L (Some c) spawn = Some (Inr out) \<Longrightarrow>
            walkerTrace (persisted out)"

text \<open>A ledger with a spawn transaction \<^verbatim>\<open>aa\<close> whose output 0 is spent by
  \<^verbatim>\<open>bb\<close>, which pays 1000 to an address and is unspent.\<close>

definition txA :: tx where
  "txA = \<lparr>vouts = [\<lparr>sats = 100000, hex = Some ''51'', addresses = None\<rparr>],
          blockheight = Some 800000, blocktime = Some 1700000000\<rparr>"

definition txB :: tx where
  "txB = \<lparr>vouts = [\<lparr>sats = 96000, hex = Some ''51'', addresses = None\<rparr>,
                   \<lparr>sats = 0, hex = Some ''006a'', addresses = None\<rparr>,
                   \<lparr>sats = 1000, hex = Some ''76a9'', addresses = Some [''1Claimer'']\<rparr>],
          blockheight = Some 800001, blocktime = Some 1700000600\<rparr>"

definition twoTx :: ledger where
  "twoTx = \<lparr>getTx = (\<lambda>i. if i = ''aa'' then Found txA
                         else if i = ''bb'' then Found txB else NotFound),
            getSpent = (\<lambda>i. if i = ''aa'' then Found (Some ''bb'') else NotFound)\<rparr>"

text \<open>The same ledger before \<^verbatim>\<open>bb\<close> was broadcast.\<close>

definition oneTx :: ledger where
  "oneTx = \<lparr>getTx = (\<lambda>i. if i = ''aa'' then Found txA else NotFound),
            getSpent = (\<lambda>i. NotFound)\<rparr>"

text \<open>What the walk over \<open>twoTx\<close> from \<^verbatim>\<open>aa\<close> with no file leaves behind.\<close>

definition twoTxTrace :: "entry list" where
  "twoTxTrace =
     [\<lparr>entryGeneration = 0, txid = ''aa'', balance = 100000, claimer = ''spawn'',
       entryReward = 0, entryFee = 0, blockHeight = Some 800000,
       blockTime = Some 1700000000, alive = False, entryOrg1 = None,
       spentBy = Some ''bb''\<rparr>,
      \<lparr>entryGeneration = 1, txid = ''bb'', balance = 96000, claimer = ''1Claimer'',
       entryReward = 1000, entryFee = 3000, blockHeight = Some 800001,
       blockTime = Some 1700000600, alive = True, entryOrg1 = None, spentBy = None\<rparr>]"

definition twoTxOutcome :: outcome where
  "twoTxOutcome =
     \<lparr>persisted = twoTxTrace, returned = Inr twoTxTrace, requests = [''aa'', ''bb'']\<rparr>"

text \<open>
  The shape of the entries the walker writes: an entry's generation is its index, its
  transaction identifier is not empty, it is marked alive exactly when it has no
  \<open>spentBy\<close>, and its fee and reward are as the loop computes them from the entry
  before it.
\<close>

definition entryOK :: "entry list \<Rightarrow> nat \<Rightarrow> bool" where
  "entryOK tr k =
     (entryGeneration (tr ! k) = k \<and> txid (tr ! k) \<noteq> [] \<and>
      (alive (tr ! k) \<longleftrightarrow> spentBy (tr ! k) = None) \<and>
      (alive (tr ! k) \<or> truthy (spentBy (tr ! k))) \<and>
      (if k = 0 then entryFee (tr ! k) = 0 \<and> entryReward (tr ! k) = 0
       else entryFee (tr ! k) =
              balance (tr ! (k - 1)) - balance (tr ! k) - entryReward (tr ! k)))"

definition wellFormed :: "entry list \<Rightarrow> bool" where
  "wellFormed tr = (\<forall>k < length tr. entryOK tr k)"


text \<open>What the walk over \<open>oneTx\<close> from \<^verbatim>\<open>aa\<close> with no file writes.\<close>

definition oneTxTrace :: "entry list" where
  "oneTxTrace =
     [\<lparr>entryGeneration = 0, txid = ''aa'', balance = 100000, claimer = ''spawn'',
       entryReward = 0, entryFee = 0, blockHeight = Some 800000,
       blockTime = Some 1700000000, alive = True, entryOrg1 = None, spentBy = None\<rparr>]"

text \<open>
  The ledger when \<^verbatim>\<open>aa\<close> is reported spent by \<^verbatim>\<open>bb\<close> but \<^verbatim>\<open>bb\<close> cannot
  be fetched yet, and what the walk from \<^verbatim>\<open>aa\<close> with no file writes on it.
\<close>

definition pendingTx :: ledger where
  "pendingTx = \<lparr>getTx = (\<lambda>i. if i = ''aa'' then Found txA else NotFound),
                getSpent = (\<lambda>i. if i = ''aa'' then Found (Some ''bb'') else NotFound)\<rparr>"

definition pendingTrace :: "entry list" where
  "pendingTrace =
     [\<lparr>entryGeneration = 0, txid = ''aa'', balance = 100000, claimer = ''spawn'',
       entryReward = 0, entryFee = 0, blockHeight = Some 800000,
       blockTime = Some 1700000000, alive = False, entryOrg1 = None,
       spentBy = Some ''bb''\<rparr>]"

text \<open>A ledger that answers 404 to every request.\<close>

definition noTx :: ledger where
  "noTx = \<lparr>getTx = (\<lambda>i. NotFound), getSpent = (\<lambda>i. NotFound)\<rparr>"

subsection \<open>Scripts and outputs of a transaction under construction\<close>

text \<open>
  The state of an \<^verbatim>\<open>Organism\<close> instance: the properties of the contract class.
  (\<open>orgSpawnTxid\<close> and \<open>orgGeneration\<close> are \<^verbatim>\<open>spawnTxid\<close> and
  \<^verbatim>\<open>generation\<close>; the plain names are the fields of the decoded annotation.)
\<close>

record organism =
  organismType :: int
  reward :: int
  fee :: int
  dustLimit :: int
  orgSpawnTxid :: "byte list"
  orgGeneration :: int

text \<open>
  A locking script: the contract's script for an instance (its code with that state), a
  raw script given by its bytes, or a pay-to-public-key-hash script for a hash.
\<close>

datatype script = LockingScript organism | RawScript "byte list" | P2PKH "byte list"

record txOutput =
  script :: script
  satoshis :: int

text \<open>
  \<^verbatim>\<open>Number(x)\<close> of a \<^verbatim>\<open>bigint\<close>: the nearest double, ties to even; exact up to
  \<open>2 ^ 53\<close> (which every amount on the ledger is, the whole supply being
  \<open>2.1 * 10 ^ 15\<close> satoshis), and infinite (\<open>None\<close>) from \<open>2 ^ 1024\<close>.
\<close>

function bitLength :: "int \<Rightarrow> nat" where
  "bitLength v = (if v \<le> 0 then 0 else Suc (bitLength (v div 2)))"
  by pat_completeness auto
termination
  by (relation "measure nat") auto

declare bitLength.simps [simp del]

definition toNumber :: "int \<Rightarrow> int option" where
  "toNumber v =
     (if \<bar>v\<bar> \<le> 2 ^ 53 then Some v
      else (let e = bitLength \<bar>v\<bar> - 53;
                q = \<bar>v\<bar> div 2 ^ e;
                r = \<bar>v\<bar> mod 2 ^ e;
                m = (if 2 * r > 2 ^ e \<or> (2 * r = 2 ^ e \<and> odd q) then q + 1 else q) * 2 ^ e
            in if m \<ge> 2 ^ 1024 then None else Some (sgn v * m)))"

text \<open>
  \<^verbatim>\<open>new bsv.Transaction.Output({ script, satoshis: Number(x) })\<close>: the constructor
  throws unless the amount is a natural number.
\<close>

definition newOutput :: "script \<Rightarrow> int \<Rightarrow> error + txOutput" where
  "newOutput s x =
     (case toNumber x of
        None \<Rightarrow> Inl NotNaturalNumber
      | Some v \<Rightarrow> if 0 \<le> v then Inr \<lparr>script = s, satoshis = v\<rparr> else Inl NotNaturalNumber)"

text \<open>
  How the \<^verbatim>\<open>bsv\<close> library serialises a pushed buffer: the length itself as the
  opcode below 76 bytes, else \<^verbatim>\<open>OP_PUSHDATA1/2/4\<close> with the length after it (a
  buffer is never \<open>2 ^ 32\<close> bytes long).
\<close>

definition pushData :: "byte list \<Rightarrow> byte list" where
  "pushData buf =
     (let len = length buf in
      if len < 76 then word_of_nat len # buf
      else if len < 2 ^ 8 then [76, word_of_nat len] @ buf
      else if len < 2 ^ 16 then [77, word_of_nat len, word_of_nat (len div 256)] @ buf
      else [78, word_of_nat len, word_of_nat (len div 256), word_of_nat (len div 65536),
            word_of_nat (len div 16777216)] @ buf)"

text \<open>\<^verbatim>\<open>bsv.Script.buildSafeDataOut\<close>: \<^verbatim>\<open>OP_FALSE OP_RETURN\<close> and one push per
  buffer.\<close>

definition buildSafeDataOut :: "byte list list \<Rightarrow> byte list" where
  "buildSafeDataOut bufs = [0, 106] @ concat (map pushData bufs)"

text \<open>\<^verbatim>\<open>Buffer.from('ORG1')\<close>.\<close>

definition ORG1bytes :: "byte list" where
  "ORG1bytes = [79, 82, 71, 49]"

text \<open>
  The \<^verbatim>\<open>OP_RETURN\<close> script as \<^verbatim>\<open>claim.cjs\<close> and \<^verbatim>\<open>fund.cjs\<close> build it
  for a type, a generation and the spawn transaction identifier of the instance.
\<close>

definition opReturnOut :: "int \<Rightarrow> int \<Rightarrow> byte list \<Rightarrow> error + txOutput" where
  "opReturnOut ty gen spawnBytes =
     (case writeUInt32LE gen of
        Inl e \<Rightarrow> Inl e
      | Inr genBytes \<Rightarrow>
          (case writeUInt8 ty of
             Inl e \<Rightarrow> Inl e
           | Inr typeBytes \<Rightarrow>
               Inr \<lparr>script = RawScript (buildSafeDataOut [ORG1bytes, typeBytes, genBytes, spawnBytes]),
                    satoshis = 0\<rparr>))"

subsection \<open>src/contracts/organism.ts: Organism.claim\<close>

text \<open>
  \<^verbatim>\<open>int2ByteString(n, size)\<close> of \<^verbatim>\<open>scrypt-ts\<close>: the sign-magnitude
  little-endian encoding of \<open>n\<close> in \<open>len\<close> bytes, the sign in the top bit of the last
  byte; it fails when the magnitude needs that bit or more.
\<close>

fun leBytes :: "nat \<Rightarrow> int \<Rightarrow> byte list" where
  "leBytes 0 v = []"
| "leBytes (Suc k) v = word_of_int v # leBytes k (v div 256)"

definition int2ByteString :: "int \<Rightarrow> nat \<Rightarrow> error + byte list" where
  "int2ByteString n len =
     (if \<bar>n\<bar> < 2 ^ (8 * len - 1)
      then Inr (leBytes len (if n < 0 then \<bar>n\<bar> + 2 ^ (8 * len - 1) else n))
      else Inl Int2ByteStringError)"

text \<open>The \<^verbatim>\<open>opReturnScript\<close> of the method, for the instance after
  \<^verbatim>\<open>this.generation++\<close>.\<close>

definition opReturnScript :: "organism \<Rightarrow> error + byte list" where
  "opReturnScript this =
     (case int2ByteString (organismType this) 1 of
        Inl e \<Rightarrow> Inl e
      | Inr ty \<Rightarrow>
          (case int2ByteString (orgGeneration this) 4 of
             Inl e \<Rightarrow> Inl e
           | Inr gen \<Rightarrow>
               Inr ([0, 106] @ [4] @ [79, 82, 71, 49] @ [1] @ ty @ [4] @ gen @ [32]
                    @ orgSpawnTxid this)))"

text \<open>
  \<^verbatim>\<open>Utils.buildOutput(script, amount)\<close> writes the amount with
  \<^verbatim>\<open>int2ByteString(amount, 8)\<close>: it fails from \<open>2 ^ 63\<close> on, and a negative amount
  is written in sign-magnitude, eight bytes that a transaction reads as the value
  \<open>\<bar>amount\<bar> + 2 ^ 63\<close>. The output is kept with the value a transaction reads.
  \<^verbatim>\<open>buildStateOutput\<close> and \<^verbatim>\<open>Utils.buildPublicKeyHashOutput\<close> are this
  function on the state script and on the pay-to-public-key-hash script.
\<close>

definition buildOutput :: "script \<Rightarrow> int \<Rightarrow> error + txOutput" where
  "buildOutput s amount =
     (case int2ByteString amount 8 of
        Inl e \<Rightarrow> Inl e
      | Inr _ \<Rightarrow>
          Inr \<lparr>script = s,
               satoshis = (if amount < 0 then \<bar>amount\<bar> + 2 ^ 63 else amount)\<rparr>)"

text \<open>
  The \<^verbatim>\<open>outputs\<close> the method builds from the value of the spent output and the
  claimer's hash: the state output when alive, the \<^verbatim>\<open>OP_RETURN\<close> output, the
  reward output.
\<close>

definition claimOutputs :: "organism \<Rightarrow> int \<Rightarrow> byte list \<Rightarrow> error + txOutput list" where
  "claimOutputs this0 utxoValue claimerPkh =
     (let currentBalance = utxoValue;
          nextBalance = currentBalance - reward this0 - fee this0;
          this = this0\<lparr>orgGeneration := orgGeneration this0 + 1\<rparr>;
          alive' = (nextBalance \<ge> dustLimit this)
      in case (if alive'
               then (case buildOutput (LockingScript this) nextBalance of
                       Inl e \<Rightarrow> Inl e
                     | Inr out \<Rightarrow> Inr [out])
               else Inr []) of
           Inl e \<Rightarrow> Inl e
         | Inr outputs0 \<Rightarrow>
            (case opReturnScript this of
               Inl e \<Rightarrow> Inl e
             | Inr s \<Rightarrow>
                (case buildOutput (RawScript s) 0 of
                   Inl e \<Rightarrow> Inl e
                 | Inr opReturn \<Rightarrow>
                    (case buildOutput (P2PKH claimerPkh) (reward this) of
                       Inl e \<Rightarrow> Inl e
                     | Inr rewardOut \<Rightarrow> Inr (outputs0 @ [opReturn] @ [rewardOut])))))"

text \<open>
  The method: the outputs of the spending transaction must be the ones it builds (the
  code compares \<^verbatim>\<open>hash256\<close> of the serialised outputs; the model compares the
  outputs). The result is the instance with the generation incremented.
\<close>

definition Organism_claim ::
    "organism \<Rightarrow> int \<Rightarrow> byte list \<Rightarrow> txOutput list \<Rightarrow> error + organism" where
  "Organism_claim this utxoValue claimerPkh txOutputs =
     (case claimOutputs this utxoValue claimerPkh of
        Inl e \<Rightarrow> Inl e
      | Inr outputs \<Rightarrow>
          if txOutputs = outputs then Inr (this\<lparr>orgGeneration := orgGeneration this + 1\<rparr>)
          else Inl AssertError)"

subsection \<open>claim.cjs\<close>

text \<open>
  What the script reads before it builds: the claimer's address (\<open>None\<close> when
  \<^verbatim>\<open>bsv.Address.fromString\<close> throws, else its public key hash), the answer of the
  spent request (\<^verbatim>\<open>spentInfo.txid\<close>, \<open>None\<close> when absent or when the request
  failed), the instance reconstructed from output 0 and its balance.
\<close>

record claimInput =
  claimAddress :: "byte list option"
  claimSpent :: "string option"
  claimOrganism :: organism
  claimBalance :: int

text \<open>
  The function \<^verbatim>\<open>claim\<close> up to the outputs its transaction builder assembles,
  in the order the builder makes them: the continuation when alive, the
  \<^verbatim>\<open>OP_RETURN\<close>, the reward.
\<close>

definition claim :: "claimInput \<Rightarrow> error + txOutput list" where
  "claim i =
     (case claimAddress i of
        None \<Rightarrow> Inl Exit1
      | Some addr \<Rightarrow>
          if truthy (claimSpent i) then Inl Exit1
          else
            (let organism' = claimOrganism i;
                 currentBalance = claimBalance i;
                 reward' = reward organism';
                 fee' = fee organism';
                 nextBalance = currentBalance - reward' - fee';
                 alive' = (nextBalance \<ge> dustLimit organism');
                 gen = orgGeneration organism';
                 nextInstance = organism'\<lparr>orgGeneration := orgGeneration organism' + 1\<rparr>
             in case (if alive'
                      then (case newOutput (LockingScript nextInstance) nextBalance of
                              Inl e \<Rightarrow> Inl e
                            | Inr out \<Rightarrow> Inr [out])
                      else Inr []) of
                  Inl e \<Rightarrow> Inl e
                | Inr continuation \<Rightarrow>
                   (case opReturnOut (organismType organism') (gen + 1) (orgSpawnTxid organism') of
                      Inl e \<Rightarrow> Inl e
                    | Inr opReturn \<Rightarrow>
                       (case newOutput (P2PKH addr) reward' of
                          Inl e \<Rightarrow> Inl e
                        | Inr rewardOut \<Rightarrow> Inr (continuation @ [opReturn] @ [rewardOut])))))"

subsection \<open>fund.cjs\<close>

text \<open>\<^verbatim>\<open>a < b\<close> and \<^verbatim>\<open>a > b\<close> on numbers: false when either is \<^verbatim>\<open>NaN\<close>.\<close>

fun nless :: "number \<Rightarrow> number \<Rightarrow> bool" where
  "nless (Num a) (Num b) = (a < b)"
| "nless _ _ = False"

fun nsub :: "number \<Rightarrow> number \<Rightarrow> number" where
  "nsub (Num a) (Num b) = Num (a - b)"
| "nsub _ _ = NaN"

text \<open>Falsiness of a number: 0 or \<^verbatim>\<open>NaN\<close>.\<close>

definition falsyNum :: "number \<Rightarrow> bool" where
  "falsyNum x = (case x of NaN \<Rightarrow> True | Num v \<Rightarrow> v = 0)"

text \<open>
  What the script reads: \<^verbatim>\<open>TXID\<close>, \<^verbatim>\<open>AMOUNT\<close> and \<^verbatim>\<open>FEE\<close> as parsed
  from the command line, whether the wallet file exists, the funder's public key hash,
  the answer of the spent request, the instance and its balance, and the values of the
  funder's unspent outputs (\<open>None\<close>: the request gave \<^verbatim>\<open>null\<close>).
\<close>

record fundInput =
  TXID :: "string option"
  AMOUNT :: number
  FEE :: number
  walletExists :: bool
  fundingAddress :: "byte list"
  fundSpent :: "string option"
  fundOrganism :: organism
  fundBalance :: int
  utxos :: "int list option"

text \<open>
  The argument check of the script (lines 25 to 34) and the function \<^verbatim>\<open>fund\<close> up
  to the outputs its transaction builder assembles: the continuation with the new
  balance, the \<^verbatim>\<open>OP_RETURN\<close> with the same generation, the change to the funder
  when above 546. The contract method \<^verbatim>\<open>fund\<close> that the script then calls is not
  in \<^verbatim>\<open>src/contracts/organism.ts\<close> and is not part of the model. (Past the
  argument check \<^verbatim>\<open>AMOUNT\<close> is a number, so the new balance is one; the
  \<^verbatim>\<open>NaN\<close> branch of the builder is never taken.)
\<close>

definition fundTxBuilder ::
    "fundInput \<Rightarrow> number \<Rightarrow> number \<Rightarrow> bool \<Rightarrow> error + txOutput list" where
  "fundTxBuilder i newBalance changeForContract hasChange =
     (let organism' = fundOrganism i;
          nextInstance = organism';
          gen = orgGeneration organism'
      in case opReturnOut (organismType organism') gen (orgSpawnTxid organism') of
           Inl e \<Rightarrow> Inl e
         | Inr opReturn \<Rightarrow>
             (case newBalance of
                NaN \<Rightarrow> Inl Exit1
              | Num nb \<Rightarrow>
                  Inr ([\<lparr>script = LockingScript nextInstance, satoshis = nb\<rparr>]
                       @ [opReturn]
                       @ (case changeForContract of
                            NaN \<Rightarrow> []
                          | Num c \<Rightarrow>
                              if hasChange
                              then [\<lparr>script = P2PKH (fundingAddress i), satoshis = c\<rparr>]
                              else []))))"

definition fund :: "fundInput \<Rightarrow> error + txOutput list" where
  "fund i =
     (if \<not> truthy (TXID i) \<or> falsyNum (AMOUNT i) then Inl Exit1
      else if \<not> walletExists i then Inl Exit1
      else if truthy (fundSpent i) then Inl Exit1
      else
        (let currentBalance = Num (fundBalance i);
             newBalance = nadd currentBalance (AMOUNT i)
         in case utxos i of
              None \<Rightarrow> Inl Exit1
            | Some us \<Rightarrow>
                if us = [] then Inl Exit1
                else
                  (let totalAvailable = Num (sum_list us);
                       needed = nadd (AMOUNT i) (FEE i)
                   in if nless totalAvailable needed then Inl Exit1
                      else
                        (let totalIn = nadd currentBalance totalAvailable;
                             changeForContract = nsub (nsub totalIn newBalance) (FEE i);
                             hasChange = nless (Num 546) changeForContract
                         in fundTxBuilder i newBalance changeForContract hasChange))))"

text \<open>A transaction as the ledger API reports it when its only output has the given
  script and no value.\<close>

definition scriptTx :: "byte list \<Rightarrow> tx" where
  "scriptTx bs =
     \<lparr>vouts = [\<lparr>sats = 0, hex = Some (toHex bs), addresses = None\<rparr>],
      blockheight = None, blocktime = None\<rparr>"




subsection \<open>Expected outputs and scenarios\<close>

text \<open>
  The annotation output byte by byte, as the schema gives it for an instance and a
  generation: \<^verbatim>\<open>OP_FALSE OP_RETURN\<close>, the push of \<^verbatim>\<open>ORG1\<close>, the push of the
  type byte, the push of the generation in four little-endian bytes, the 32-byte push of
  the spawn transaction identifier; value 0.
\<close>

definition annotation :: "organism \<Rightarrow> int \<Rightarrow> txOutput" where
  "annotation org gen =
     \<lparr>script = RawScript ([0, 106, 4, 79, 82, 71, 49, 1, word_of_int (organismType org), 4,
                           word_of_int gen, word_of_int (gen div 256),
                           word_of_int (gen div 65536), word_of_int (gen div 16777216), 32]
                          @ orgSpawnTxid org),
      satoshis = 0\<rparr>"

text \<open>The organism of the scenarios: reward 1000, fee 3000, dust limit 546, at generation 0.\<close>

definition scenarioA :: organism where
  "scenarioA = \<lparr>organismType = 0, reward = 1000, fee = 3000, dustLimit = 546,
                 orgSpawnTxid = replicate 32 0, orgGeneration = 0\<rparr>"

text \<open>Two public key hashes, of a claimer and of a funder.\<close>

definition claimer :: "byte list" where
  "claimer = [1, 2, 3, 4, 5, 6, 7, 8, 9, 10, 11, 12, 13, 14, 15, 16, 17, 18, 19, 20]"

definition funder :: "byte list" where
  "funder = [20, 19, 18, 17, 16, 15, 14, 13, 12, 11, 10, 9, 8, 7, 6, 5, 4, 3, 2, 1]"

text \<open>A feed of 20000 to the organism at balance 50000, from a wallet holding 30000.\<close>

definition scenarioC :: fundInput where
  "scenarioC = \<lparr>TXID = Some ''aa'', AMOUNT = Num 20000, FEE = Num 3000, walletExists = True,
                 fundingAddress = funder, fundSpent = None, fundOrganism = scenarioA,
                 fundBalance = 50000, utxos = Some [30000]\<rparr>"

section \<open>Properties\<close>

subsection \<open>Truncated tag regions\<close>

lemma decodeOuts_skip:
  "list_all passedOver pre \<Longrightarrow> decodeOuts (pre @ rest) = decodeOuts rest"
proof (induction pre)
  case Nil
  then show ?case by simp
next
  case (Cons out pre)
  then have p: "passedOver out" and r: "decodeOuts (pre @ rest) = decodeOuts rest" by simp_all
  show ?case
  proof (cases "hex out")
    case None
    then show ?thesis using r by simp
  next
    case (Some h)
    show ?thesis
    proof (cases "indexOf h ORG1")
      case None
      then show ?thesis using Some r by simp
    next
      case (Some idx)
      with p \<open>hex out = Some h\<close> have "length h < idx + 8 + 78"
        by (simp add: passedOver_def)
      then have "length (sliceFrom h (Num (int idx + 8))) < 78"
        by (simp add: sliceFrom_def sliceIndex_def)
      then show ?thesis using Some \<open>hex out = Some h\<close> r by simp
    qed
  qed
qed

text \<open>
  Claim C4, as the code has it. When every output of a transaction has no script, lacks
  the tag, or has fewer than 78 hexadecimal characters after the first occurrence of the
  tag, \<^verbatim>\<open>decodeORG1\<close> returns \<^verbatim>\<open>null\<close>: a truncated tag region gives the
  very result of an absent tag, and no error.
\<close>

theorem truncated_tag_region_is_null:
  assumes "\<forall>out \<in> set (vouts t). passedOver out"
  shows "decodeORG1 t = Inr None"
proof -
  from assms have "list_all passedOver (vouts t)" by (simp add: list_all_iff)
  from decodeOuts_skip [OF this, of "[]"] show ?thesis by (simp add: decodeORG1_def)
qed

theorem truncated_tag_region_is_null_witness:
  "list_all passedOver (vouts truncatedAfterSpecies) \<and>
   decodeORG1 truncatedAfterSpecies = Inr None"
  using truncated_tag_region_is_null [of truncatedAfterSpecies]
  by (simp add: truncatedAfterSpecies_def passedOver_def ORG1_def)

text \<open>
  Claim C4 as stated fails: the script \<^verbatim>\<open>006a044f5247310100\<close> holds the tag (at
  offset 6) and stops after the species push, and the decoder returns \<^verbatim>\<open>null\<close>
  for it, as it does for a script without the tag.
\<close>

theorem truncated_after_species_not_an_error:
  "indexOf ''006a044f5247310100'' ORG1 = Some 6 \<and>
   decodeORG1 \<lparr>vouts = [\<lparr>sats = 0, hex = Some ''006a044f5247310100'', addresses = None\<rparr>],
                blockheight = None, blocktime = None\<rparr> = Inr None \<and>
   decodeORG1 \<lparr>vouts = [\<lparr>sats = 0, hex = Some ''006a'', addresses = None\<rparr>],
                blockheight = None, blocktime = None\<rparr> = Inr None"
  by (simp add: decodeORG1_def ORG1_def sliceFrom_def sliceIndex_def)

subsection \<open>The loop of the walker\<close>

lemma body_Break:
  assumes "body L w cur = Inr (Break w')"
  shows "w' = w\<lparr>fetched := fetched w @ [cur]\<rparr> \<and> getTx L cur = NotFound"
proof (cases "getTx L cur")
  case NotFound
  with assms show ?thesis by (simp add: body_def)
next
  case (Found t)
  show ?thesis
  proof (cases "decodeORG1 t")
    case (Inl e)
    with assms Found show ?thesis by (simp add: body_def Let_def split: if_splits)
  next
    case (Inr org)
    with assms Found show ?thesis by (simp add: body_def Let_def split: if_splits)
  qed
next
  case Rejected
  with assms show ?thesis by (simp add: body_def)
qed

lemma body_Next:
  assumes "body L w cur = Inr (Next w')"
  shows "\<exists>t org. getTx L cur = Found t \<and> vouts t \<noteq> [] \<and> decodeORG1 t = Inr org \<and>
        lineage w' = lineage w @ [(mkEntry w cur t org)\<lparr>alive := \<not> truthy (currentTxid w'),
                                                         spentBy := currentTxid w'\<rparr>] \<and>
        fetched w' = fetched w @ [cur] \<and>
        (truthy (currentTxid w') \<longrightarrow> walkGeneration w' = walkGeneration w + 1) \<and>
        (\<not> truthy (currentTxid w') \<longrightarrow> currentTxid w' = None)"
proof (cases "getTx L cur")
  case NotFound
  with assms show ?thesis by (simp add: body_def)
next
  case Rejected
  with assms show ?thesis by (simp add: body_def)
next
  case (Found t)
  show ?thesis
  proof (cases "decodeORG1 t")
    case (Inl e)
    with assms Found show ?thesis by (simp add: body_def Let_def split: if_splits)
  next
    case (Inr org)
    define si where "si = (case getSpent L cur of Found i \<Rightarrow> i | _ \<Rightarrow> None)"
    have ne: "vouts t \<noteq> []"
    proof
      assume "vouts t = []"
      with assms Found show False by (simp add: body_def Let_def)
    qed
    have m: "alive (mkEntry w cur t org) = True" "spentBy (mkEntry w cur t org) = None"
      by (simp_all add: mkEntry_def Let_def)
    show ?thesis
    proof (cases "truthy si")
      case True
      with assms Found Inr ne have
        "w' = w\<lparr>fetched := fetched w @ [cur],
                lineage := lineage w @ [(mkEntry w cur t org)\<lparr>alive := False, spentBy := si\<rparr>],
                currentTxid := si, walkGeneration := walkGeneration w + 1\<rparr>"
        by (simp add: body_def Let_def si_def)
      with True Found Inr ne show ?thesis by simp
    next
      case False
      with assms Found Inr ne have
        "w' = w\<lparr>fetched := fetched w @ [cur],
                lineage := lineage w @ [mkEntry w cur t org],
                currentTxid := None\<rparr>"
        by (simp add: body_def Let_def si_def)
      with Found Inr ne m show ?thesis by (simp add: truthy_def)
    qed
  qed
qed

lemma walkLoop_done:
  "\<not> truthy (currentTxid w) \<Longrightarrow> walkLoop n L w = Some (Inr w)"
  by (cases n) simp_all

lemma walkLoop_more_fuel: "walkLoop n L w = Some r \<Longrightarrow> walkLoop (n + m) L w = Some r"
proof (induction n arbitrary: w)
  case 0
  then show ?case by (simp add: walkLoop_done split: if_splits)
next
  case (Suc k)
  show ?case
  proof (cases "truthy (currentTxid w)")
    case False
    with Suc.prems show ?thesis by simp
  next
    case True
    show ?thesis
    proof (cases "body L w (the (currentTxid w))")
      case (Inl e)
      with Suc.prems True show ?thesis by simp
    next
      case (Inr s)
      show ?thesis
      proof (cases s)
        case (Break w1)
        with Inr Suc.prems True show ?thesis by simp
      next
        case (Next w2)
        with Inr Suc.prems True have "walkLoop k L w2 = Some r" by simp
        from Suc.IH [OF this] Next Inr True show ?thesis by simp
      qed
    qed
  qed
qed


lemma mkEntry_fields:
  "txid (mkEntry w cur t org) = cur"
  "entryGeneration (mkEntry w cur t org) = walkGeneration w"
  "balance (mkEntry w cur t org) = sats (hd (vouts t))"
  by (simp_all add: mkEntry_def Let_def)





subsection \<open>Well-formed lineage files\<close>

lemma entryOK_append: "k < length tr \<Longrightarrow> entryOK (tr @ xs) k = entryOK tr k"
  by (cases k) (simp_all add: entryOK_def nth_append)

lemma wellFormed_snoc:
  "wellFormed tr \<Longrightarrow> entryOK (tr @ [e]) (length tr) \<Longrightarrow> wellFormed (tr @ [e])"
  by (auto simp: wellFormed_def less_Suc_eq entryOK_append)

lemma wellFormed_butlast: "wellFormed tr \<Longrightarrow> wellFormed (butlast tr)"
proof (cases "tr = []")
  case True
  then show ?thesis by (simp add: wellFormed_def)
next
  case False
  assume wf: "wellFormed tr"
  from False have tr: "tr = butlast tr @ [last tr]" by simp
  show ?thesis
    unfolding wellFormed_def
  proof (intro allI impI)
    fix k assume k: "k < length (butlast tr)"
    then have "entryOK (butlast tr @ [last tr]) k" using wf tr by (simp add: wellFormed_def)
    with k show "entryOK (butlast tr) k" by (simp add: entryOK_append)
  qed
qed

lemma mkEntry_OK:
  assumes "cur \<noteq> []" "walkGeneration w = length (lineage w)" "truthy si \<or> si = None"
  shows "entryOK (lineage w @ [(mkEntry w cur t org)\<lparr>alive := \<not> truthy si, spentBy := si\<rparr>])
           (length (lineage w))"
  using assms
  by (auto simp: entryOK_def mkEntry_def Let_def prevBalance_def nth_append truthy_def)

lemma walkLoop_wellFormed:
  "wellFormed (lineage w) \<Longrightarrow>
   (truthy (currentTxid w) \<longrightarrow> walkGeneration w = length (lineage w)) \<Longrightarrow>
   walkLoop n L w = Some (Inr w') \<Longrightarrow> wellFormed (lineage w')"
proof (induction n arbitrary: w)
  case 0
  then show ?case by (simp split: if_splits)
next
  case (Suc k)
  show ?case
  proof (cases "truthy (currentTxid w)")
    case False
    with Suc.prems show ?thesis by simp
  next
    case True
    define cur where "cur = the (currentTxid w)"
    from True have cur_ne: "cur \<noteq> []"
      by (auto simp: cur_def truthy_def split: option.splits)
    from True Suc.prems have gen: "walkGeneration w = length (lineage w)" by simp
    show ?thesis
    proof (cases "body L w cur")
      case (Inl e)
      with Suc.prems True show ?thesis by (simp add: cur_def)
    next
      case (Inr r)
      show ?thesis
      proof (cases r)
        case (Break w1)
        with Inr Suc.prems True have "w' = w1" by (simp add: cur_def)
        moreover from body_Break [OF Inr [unfolded Break]] have "lineage w1 = lineage w"
          by simp
        ultimately show ?thesis using Suc.prems by simp
      next
        case (Next w2)
        with Inr Suc.prems True have run: "walkLoop k L w2 = Some (Inr w')"
          by (simp add: cur_def)
        from body_Next [OF Inr [unfolded Next]] obtain t org where
          lin: "lineage w2 = lineage w @ [(mkEntry w cur t org)\<lparr>alive := \<not> truthy (currentTxid w2),
                                                         spentBy := currentTxid w2\<rparr>]"
          and go: "truthy (currentTxid w2) \<longrightarrow> walkGeneration w2 = walkGeneration w + 1"
          and stop: "\<not> truthy (currentTxid w2) \<longrightarrow> currentTxid w2 = None"
          by blast
        have "truthy (currentTxid w2) \<or> currentTxid w2 = None"
          using stop by (cases "truthy (currentTxid w2)") simp_all
        from mkEntry_OK [OF cur_ne gen this] have "wellFormed (lineage w2)"
          using Suc.prems(1) lin by (simp add: wellFormed_snoc)
        moreover have "truthy (currentTxid w2) \<longrightarrow> walkGeneration w2 = length (lineage w2)"
          using go gen lin by simp
        ultimately show ?thesis using Suc.IH run by blast
      qed
    qed
  qed
qed

lemma wellFormed_last:
  assumes "wellFormed c" "c \<noteq> []"
  shows "entryGeneration (last c) = length c - 1" "txid (last c) \<noteq> []"
    "alive (last c) \<longleftrightarrow> spentBy (last c) = None"
    "alive (last c) \<or> truthy (spentBy (last c))"
proof -
  from assms have "entryOK c (length c - 1)" by (simp add: wellFormed_def)
  moreover from assms have "last c = c ! (length c - 1)" by (simp add: last_conv_nth)
  ultimately show "entryGeneration (last c) = length c - 1" "txid (last c) \<noteq> []"
    "alive (last c) \<longleftrightarrow> spentBy (last c) = None"
    "alive (last c) \<or> truthy (spentBy (last c))"
    unfolding entryOK_def by auto
qed

lemma resume_spent:
  assumes "c \<noteq> []" "truthy (spentBy (last c))"
  shows "resume (Some c) spawn =
           \<lparr>lineage = c, currentTxid = spentBy (last c),
            walkGeneration = entryGeneration (last c) + 1, fetched = []\<rparr>"
  using assms by (simp add: resume_def Let_def)

lemma resume_alive:
  assumes "c \<noteq> []" "\<not> truthy (spentBy (last c))" "alive (last c)"
  shows "resume (Some c) spawn =
           \<lparr>lineage = butlast c, currentTxid = Some (txid (last c)),
            walkGeneration = entryGeneration (last c), fetched = []\<rparr>"
  using assms by (simp add: resume_def Let_def)

lemma resume_fresh:
  "resume None spawn = \<lparr>lineage = [], currentTxid = Some spawn, walkGeneration = 0, fetched = []\<rparr>"
  "resume (Some []) spawn = \<lparr>lineage = [], currentTxid = Some spawn, walkGeneration = 0, fetched = []\<rparr>"
  by (simp_all add: resume_def Let_def)

lemma resume_wellFormed:
  assumes "wellFormed c"
  shows "wellFormed (lineage (resume (Some c) spawn)) \<and>
         (truthy (currentTxid (resume (Some c) spawn)) \<longrightarrow>
            walkGeneration (resume (Some c) spawn) = length (lineage (resume (Some c) spawn)))"
proof (cases "c = []")
  case True
  then show ?thesis by (simp add: resume_fresh wellFormed_def)
next
  case False
  note last = wellFormed_last [OF assms False]
  show ?thesis
  proof (cases "truthy (spentBy (last c))")
    case True
    from False have "0 < length c" by simp
    with resume_spent [OF False True] assms last(1) show ?thesis by simp
  next
    case nt: False
    with last(4) have "alive (last c)" by blast
    from resume_alive [OF False nt this] assms last(1) show ?thesis
      by (simp add: wellFormed_butlast)
  qed
qed

lemma walkerTrace_wellFormed: "walkerTrace tr \<Longrightarrow> wellFormed tr"
proof (induction rule: walkerTrace.induct)
  case (fromSpawn n L spawn out)
  then obtain w' where
    run: "walkLoop n L (resume None spawn) = Some (Inr w')" and out: "persisted out = lineage w'"
    by (auto simp: traceLineage_def split: option.splits sum.splits)
  have "wellFormed (lineage (resume None spawn))" 
    by (simp add: resume_fresh wellFormed_def)
  moreover have "truthy (currentTxid (resume None spawn)) \<longrightarrow>
       walkGeneration (resume None spawn) = length (lineage (resume None spawn))"
    by (simp add: resume_fresh)
  ultimately show ?case using walkLoop_wellFormed run out by metis
next
  case (resumed c n L spawn out)
  then obtain w' where
    run: "walkLoop n L (resume (Some c) spawn) = Some (Inr w')" and out: "persisted out = lineage w'"
    by (auto simp: traceLineage_def split: option.splits sum.splits)
  from resume_wellFormed [OF resumed.IH, of spawn] walkLoop_wellFormed run out
  show ?case by metis
qed

text \<open>
  Claim C8. In every lineage file the walker writes, the entry at index \<open>k\<close> has
  generation \<open>k\<close>; the entry with no entry before it (generation 0) has fee 0 and
  reward 0; every other entry's fee is the balance of the entry before it, minus its own
  balance, minus its own reward.
\<close>

theorem fee_from_prior_balance:
  assumes "walkerTrace tr" "k < length tr"
  shows "entryGeneration (tr ! k) = k \<and>
         (if k = 0 then entryFee (tr ! k) = 0 \<and> entryReward (tr ! k) = 0
          else entryFee (tr ! k) =
                 balance (tr ! (k - 1)) - balance (tr ! k) - entryReward (tr ! k))"
proof -
  from walkerTrace_wellFormed [OF assms(1)] assms(2) have "entryOK tr k"
    by (simp add: wellFormed_def)
  then show ?thesis unfolding entryOK_def by auto
qed

theorem fee_from_prior_balance_witness:
  "walkerTrace twoTxTrace \<and> (1 :: nat) < length twoTxTrace \<and>
   entryGeneration (twoTxTrace ! 1) = 1 \<and>
   entryFee (twoTxTrace ! 1) =
     balance (twoTxTrace ! 0) - balance (twoTxTrace ! 1) - entryReward (twoTxTrace ! 1) \<and>
   entryFee (twoTxTrace ! 1) = 3000"
proof -
  have "traceLineage 5 twoTx None ''aa'' = Some (Inr twoTxOutcome)"
    by code_simp
  from walkerTrace.fromSpawn [OF this] have wt: "walkerTrace twoTxTrace"
    by (simp add: twoTxOutcome_def)
  have len: "(1 :: nat) < length twoTxTrace" by (simp add: twoTxTrace_def)
  from fee_from_prior_balance [OF wt len] wt len show ?thesis
    by (simp add: twoTxTrace_def)
qed

subsection \<open>Resuming from a lineage file\<close>

lemma walkLoop_requests:
  "walkLoop n L w = Some (Inr w') \<Longrightarrow> truthy (currentTxid w) \<Longrightarrow>
     \<exists>new reqs. lineage w' = lineage w @ new \<and>
        fetched w' = fetched w @ the (currentTxid w) # reqs \<and>
        prefix (map txid new) (the (currentTxid w) # reqs) \<and>
        length reqs \<le> length new \<and>
        (\<forall>t. getTx L (the (currentTxid w)) = Found t \<longrightarrow>
               new \<noteq> [] \<and> txid (hd new) = the (currentTxid w) \<and>
               entryGeneration (hd new) = walkGeneration w \<and>
               balance (hd new) = sats (hd (vouts t)))"
proof (induction n arbitrary: w)
  case 0
  then show ?case by simp
next
  case (Suc k)
  define cur where "cur = the (currentTxid w)"
  show ?case
  proof (cases "body L w cur")
    case (Inl e)
    with Suc.prems show ?thesis by (simp add: cur_def)
  next
    case (Inr r)
    show ?thesis
    proof (cases r)
      case (Break w1)
      with Inr Suc.prems have "w' = w1" by (simp add: cur_def)
      with body_Break [OF Inr [unfolded Break]]
      have "lineage w' = lineage w @ []" "fetched w' = fetched w @ cur # []"
        "getTx L cur = NotFound"
        by simp_all
      then show ?thesis unfolding cur_def [symmetric] by (intro exI [of _ "[]"]) simp
    next
      case (Next w2)
      with Inr Suc.prems have run: "walkLoop k L w2 = Some (Inr w')"
        by (simp add: cur_def)
      from body_Next [OF Inr [unfolded Next]] obtain t org where
        tx: "getTx L cur = Found t"
        and lin: "lineage w2 = lineage w @ [(mkEntry w cur t org)\<lparr>alive := \<not> truthy (currentTxid w2),
                                                         spentBy := currentTxid w2\<rparr>]"
        and fet: "fetched w2 = fetched w @ [cur]"
        by blast
      define e where "e = (mkEntry w cur t org)\<lparr>alive := \<not> truthy (currentTxid w2),
                                                         spentBy := currentTxid w2\<rparr>"
      have e: "txid e = cur" "entryGeneration e = walkGeneration w"
        "balance e = sats (hd (vouts t))"
        by (simp_all add: e_def mkEntry_fields)
      show ?thesis
      proof (cases "truthy (currentTxid w2)")
        case False
        with run have "w' = w2" by (simp add: walkLoop_done)
        with lin fet have "lineage w' = lineage w @ [e]" "fetched w' = fetched w @ cur # []"
          by (simp_all add: e_def)
        with e tx show ?thesis unfolding cur_def [symmetric]
          by (intro exI [of _ "[e]"] exI [of _ "[]"]) simp
      next
        case True
        from Suc.IH [OF run True] obtain new reqs where
          n1: "lineage w' = lineage w2 @ new"
          and n2: "fetched w' = fetched w2 @ the (currentTxid w2) # reqs"
          and n3: "prefix (map txid new) (the (currentTxid w2) # reqs)"
          and n4: "length reqs \<le> length new"
          by blast
        have "lineage w' = lineage w @ (e # new)" using n1 lin by (simp add: e_def)
        moreover have "fetched w' = fetched w @ cur # (the (currentTxid w2) # reqs)"
          using n2 fet by simp
        moreover have "prefix (map txid (e # new)) (cur # (the (currentTxid w2) # reqs))"
          using n3 e by simp
        moreover have "length (the (currentTxid w2) # reqs) \<le> length (e # new)"
          using n4 by simp
        ultimately show ?thesis using e tx unfolding cur_def [symmetric]
          by (intro exI [of _ "e # new"] exI [of _ "the (currentTxid w2) # reqs"]) simp
      qed
    qed
  qed
qed

lemma body_Found:
  assumes "getTx L cur = Found t" "vouts t \<noteq> []" "decodeORG1 t = Inr org"
  shows "\<exists>w'. body L w cur = Inr (Next w')"
  using assms by (simp add: body_def Let_def)

text \<open>
  Claim C9, as the code has it. Take a non-empty lineage file the walker wrote. If its
  last entry has a \<open>spentBy\<close>, the walk starts with the whole file as its lineage, at the
  next generation, with that successor as the transaction to request and no request
  made; when the walk ends, the new lineage is the whole file followed by the new entries
  and the first request was the successor. If it has none, the walk starts with the file
  without its last entry, at the generation of that entry and with its transaction as
  the one to request. When the ledger returns that transaction (with an output 0 and an
  annotation the decoder does not throw on), the first turn of the loop puts back, at the
  same place, an entry of the same transaction and generation with the balance the
  ledger gives, and the loop goes on from there; when the walk ends, the new lineage is
  the file without its last entry followed by the new entries. In both cases every
  request but possibly the last (a failed one) yields a new entry, in order: no request
  goes to re-deriving an entry that was kept.
\<close>

theorem resume_from_cache:
  assumes "walkerTrace c" "c \<noteq> []"
  shows "(case spentBy (last c) of
            Some successor \<Rightarrow>
              resume (Some c) spawn =
                \<lparr>lineage = c, currentTxid = Some successor, walkGeneration = length c,
                 fetched = []\<rparr>
          | None \<Rightarrow>
              resume (Some c) spawn =
                \<lparr>lineage = butlast c, currentTxid = Some (txid (last c)),
                 walkGeneration = length c - 1, fetched = []\<rparr>) \<and>
         (\<forall>t org. spentBy (last c) = None \<and> getTx L (txid (last c)) = Found t \<and>
                  vouts t \<noteq> [] \<and> decodeORG1 t = Inr org \<longrightarrow>
            (\<exists>e w1. body L (resume (Some c) spawn) (txid (last c)) = Inr (Next w1) \<and>
                     (\<forall>k. walkLoop (Suc k) L (resume (Some c) spawn) = walkLoop k L w1) \<and>
                     lineage w1 = butlast c @ [e] \<and> fetched w1 = [txid (last c)] \<and>
                     txid e = txid (last c) \<and>
                     entryGeneration e = entryGeneration (last c) \<and>
                     balance e = sats (hd (vouts t)))) \<and>
         (\<forall>n out. traceLineage n L (Some c) spawn = Some (Inr out) \<longrightarrow>
            (\<exists>new reqs.
               (case spentBy (last c) of
                  Some successor \<Rightarrow>
                    persisted out = c @ new \<and> requests out = successor # reqs
                | None \<Rightarrow>
                    persisted out = butlast c @ new \<and> requests out = txid (last c) # reqs \<and>
                    (\<forall>t. getTx L (txid (last c)) = Found t \<longrightarrow>
                       new \<noteq> [] \<and> txid (hd new) = txid (last c) \<and>
                       entryGeneration (hd new) = entryGeneration (last c) \<and>
                       balance (hd new) = sats (hd (vouts t)))) \<and>
               prefix (map txid new) (requests out) \<and> length reqs \<le> length new))"
proof -
  note last = wellFormed_last [OF walkerTrace_wellFormed [OF assms(1)] assms(2)]
  from assms(2) have len: "entryGeneration (last c) + 1 = length c"
    using last(1) by (cases c) simp_all
  show ?thesis
  proof (cases "spentBy (last c)")
    case None
    then have nt: "\<not> truthy (spentBy (last c))" by (simp add: truthy_def)
    from None last(3) have al: "alive (last c)" by simp
    note r = resume_alive [OF assms(2) nt al, of spawn]
    have tr: "truthy (currentTxid (resume (Some c) spawn))"
      using last(2) by (simp add: r truthy_def)
    have cur: "the (currentTxid (resume (Some c) spawn)) = txid (last c)"
      by (simp add: r)
    have start: "resume (Some c) spawn =
                \<lparr>lineage = butlast c, currentTxid = Some (txid (last c)),
                 walkGeneration = length c - 1, fetched = []\<rparr>"
      using r last(1) by simp
    have step: "\<exists>e w1. body L (resume (Some c) spawn) (txid (last c)) = Inr (Next w1) \<and>
                     (\<forall>k. walkLoop (Suc k) L (resume (Some c) spawn) = walkLoop k L w1) \<and>
                     lineage w1 = butlast c @ [e] \<and> fetched w1 = [txid (last c)] \<and>
                     txid e = txid (last c) \<and>
                     entryGeneration e = entryGeneration (last c) \<and>
                     balance e = sats (hd (vouts t))"
      if f: "getTx L (txid (last c)) = Found t" "vouts t \<noteq> []" "decodeORG1 t = Inr org"
      for t org
    proof -
      from body_Found [OF f] obtain w1 where
        b: "body L (resume (Some c) spawn) (txid (last c)) = Inr (Next w1)"
        by blast
      from body_Next [OF b] f(1) obtain org' where
        lin: "lineage w1 = lineage (resume (Some c) spawn) @
                [(mkEntry (resume (Some c) spawn) (txid (last c)) t org')
                   \<lparr>alive := \<not> truthy (currentTxid w1), spentBy := currentTxid w1\<rparr>]"
        and fet: "fetched w1 = fetched (resume (Some c) spawn) @ [txid (last c)]"
        by auto
      define e where "e = (mkEntry (resume (Some c) spawn) (txid (last c)) t org')
                   \<lparr>alive := \<not> truthy (currentTxid w1), spentBy := currentTxid w1\<rparr>"
      have "txid e = txid (last c)" "entryGeneration e = entryGeneration (last c)"
        "balance e = sats (hd (vouts t))"
        by (simp_all add: e_def mkEntry_fields r)
      moreover have "lineage w1 = butlast c @ [e]" "fetched w1 = [txid (last c)]"
        using lin fet by (simp_all add: e_def r)
      moreover have "walkLoop (Suc k) L (resume (Some c) spawn) = walkLoop k L w1" for k
        using tr cur b by simp
      ultimately show ?thesis using b by blast
    qed
    have fin: "\<exists>new reqs.
               (persisted out = butlast c @ new \<and> requests out = txid (last c) # reqs \<and>
                    (\<forall>t. getTx L (txid (last c)) = Found t \<longrightarrow>
                       new \<noteq> [] \<and> txid (hd new) = txid (last c) \<and>
                       entryGeneration (hd new) = entryGeneration (last c) \<and>
                       balance (hd new) = sats (hd (vouts t)))) \<and>
               prefix (map txid new) (requests out) \<and> length reqs \<le> length new"
      if t: "traceLineage n L (Some c) spawn = Some (Inr out)" for n out
    proof -
      from t obtain w' where
        run: "walkLoop n L (resume (Some c) spawn) = Some (Inr w')"
        and out: "persisted out = lineage w'" "requests out = fetched w'"
        by (auto simp: traceLineage_def split: option.splits sum.splits)
      from walkLoop_requests [OF run tr] obtain new reqs where
        "lineage w' = butlast c @ new" "fetched w' = txid (last c) # reqs"
        "prefix (map txid new) (txid (last c) # reqs)" "length reqs \<le> length new"
        "\<forall>t. getTx L (txid (last c)) = Found t \<longrightarrow>
             new \<noteq> [] \<and> txid (hd new) = txid (last c) \<and>
             entryGeneration (hd new) = entryGeneration (last c) \<and>
             balance (hd new) = sats (hd (vouts t))"
        unfolding r by auto
      with out show ?thesis
        by (intro exI [of _ new] exI [of _ reqs]) simp
    qed
    from start step fin show ?thesis unfolding None by simp
  next
    case (Some successor)
    with last(3,4) have tr: "truthy (spentBy (last c))" by auto
    note r = resume_spent [OF assms(2) tr, of spawn]
    have tc: "truthy (currentTxid (resume (Some c) spawn))"
      using tr by (simp add: r)
    have start: "resume (Some c) spawn =
                \<lparr>lineage = c, currentTxid = Some successor, walkGeneration = length c,
                 fetched = []\<rparr>"
      using r len Some by simp
    have fin: "\<exists>new reqs.
               (persisted out = c @ new \<and> requests out = successor # reqs) \<and>
               prefix (map txid new) (requests out) \<and> length reqs \<le> length new"
      if t: "traceLineage n L (Some c) spawn = Some (Inr out)" for n out
    proof -
      from t obtain w' where
        run: "walkLoop n L (resume (Some c) spawn) = Some (Inr w')"
        and out: "persisted out = lineage w'" "requests out = fetched w'"
        by (auto simp: traceLineage_def split: option.splits sum.splits)
      from walkLoop_requests [OF run tc] obtain new reqs where
        "lineage w' = c @ new" "fetched w' = successor # reqs"
        "prefix (map txid new) (successor # reqs)" "length reqs \<le> length new"
        unfolding r using Some by auto
      with out show ?thesis
        by (intro exI [of _ new] exI [of _ reqs]) simp
    qed
    from start fin show ?thesis unfolding Some by simp
  qed
qed

theorem resume_from_cache_witness:
  "walkerTrace oneTxTrace \<and> oneTxTrace \<noteq> [] \<and> spentBy (last oneTxTrace) = None \<and>
   resume (Some oneTxTrace) ''aa'' =
     \<lparr>lineage = [], currentTxid = Some ''aa'', walkGeneration = 0, fetched = []\<rparr> \<and>
   getTx twoTx ''aa'' = Found txA \<and> vouts txA \<noteq> [] \<and> decodeORG1 txA = Inr None \<and>
   (\<exists>e w1. body twoTx (resume (Some oneTxTrace) ''aa'') ''aa'' = Inr (Next w1) \<and>
            (\<forall>k. walkLoop (Suc k) twoTx (resume (Some oneTxTrace) ''aa'') = walkLoop k twoTx w1) \<and>
            lineage w1 = [e] \<and> fetched w1 = [''aa''] \<and> txid e = ''aa'' \<and>
            entryGeneration e = 0 \<and> balance e = 100000) \<and>
   traceLineage 5 twoTx (Some oneTxTrace) ''aa'' = Some (Inr twoTxOutcome) \<and>
   (\<exists>new reqs. persisted twoTxOutcome = new \<and> requests twoTxOutcome = ''aa'' # reqs \<and>
       new \<noteq> [] \<and> txid (hd new) = ''aa'' \<and> entryGeneration (hd new) = 0 \<and>
       balance (hd new) = 100000 \<and>
       prefix (map txid new) (requests twoTxOutcome) \<and> length reqs \<le> length new) \<and>
   walkerTrace pendingTrace \<and> pendingTrace \<noteq> [] \<and> spentBy (last pendingTrace) = Some ''bb'' \<and>
   resume (Some pendingTrace) ''aa'' =
     \<lparr>lineage = pendingTrace, currentTxid = Some ''bb'', walkGeneration = 1, fetched = []\<rparr> \<and>
   traceLineage 5 twoTx (Some pendingTrace) ''aa'' =
     Some (Inr \<lparr>persisted = twoTxTrace, returned = Inr twoTxTrace, requests = [''bb'']\<rparr>) \<and>
   (\<exists>new reqs. twoTxTrace = pendingTrace @ new \<and> [''bb''] = ''bb'' # reqs \<and>
       prefix (map txid new) [''bb''] \<and> length reqs \<le> length new)"
proof -
  have "traceLineage 5 oneTx None ''aa'' =
          Some (Inr \<lparr>persisted = oneTxTrace, returned = Inr oneTxTrace, requests = [''aa'']\<rparr>)"
    by code_simp
  from walkerTrace.fromSpawn [OF this] have wt: "walkerTrace oneTxTrace" by simp
  have ne: "oneTxTrace \<noteq> []" by (simp add: oneTxTrace_def)
  have l1: "spentBy (last oneTxTrace) = None" "txid (last oneTxTrace) = ''aa''"
    "butlast oneTxTrace = []" "length oneTxTrace - 1 = 0" "entryGeneration (last oneTxTrace) = 0"
    by (simp_all add: oneTxTrace_def)
  have tx: "getTx twoTx ''aa'' = Found txA" "vouts txA \<noteq> []" "sats (hd (vouts txA)) = 100000"
    by (simp_all add: twoTx_def txA_def)
  have dec: "decodeORG1 txA = Inr None" by code_simp
  have run: "traceLineage 5 twoTx (Some oneTxTrace) ''aa'' = Some (Inr twoTxOutcome)"
    by code_simp
  note a = resume_from_cache [OF wt ne, where spawn = "''aa''" and L = twoTx, unfolded l1 option.case]
  from a have a1: "resume (Some oneTxTrace) ''aa'' =
     \<lparr>lineage = [], currentTxid = Some ''aa'', walkGeneration = 0, fetched = []\<rparr>"
    by blast
  from a tx(1,2) dec have a2: "\<exists>e w1. body twoTx (resume (Some oneTxTrace) ''aa'') ''aa'' = Inr (Next w1) \<and>
            (\<forall>k. walkLoop (Suc k) twoTx (resume (Some oneTxTrace) ''aa'') = walkLoop k twoTx w1) \<and>
            lineage w1 = [] @ [e] \<and> fetched w1 = [''aa''] \<and> txid e = ''aa'' \<and>
            entryGeneration e = 0 \<and> balance e = sats (hd (vouts txA))"
    by blast
  from a run tx(1) have a3: "\<exists>new reqs. persisted twoTxOutcome = [] @ new \<and>
       requests twoTxOutcome = ''aa'' # reqs \<and>
       new \<noteq> [] \<and> txid (hd new) = ''aa'' \<and> entryGeneration (hd new) = 0 \<and>
       balance (hd new) = sats (hd (vouts txA)) \<and>
       prefix (map txid new) (requests twoTxOutcome) \<and> length reqs \<le> length new"
    by blast
  have "traceLineage 5 pendingTx None ''aa'' =
          Some (Inr \<lparr>persisted = pendingTrace, returned = Inr pendingTrace,
                     requests = [''aa'', ''bb'']\<rparr>)"
    by code_simp
  from walkerTrace.fromSpawn [OF this] have wt2: "walkerTrace pendingTrace" by simp
  have ne2: "pendingTrace \<noteq> []" by (simp add: pendingTrace_def)
  have l2: "spentBy (last pendingTrace) = Some ''bb''" "length pendingTrace = 1"
    by (simp_all add: pendingTrace_def)
  have run2: "traceLineage 5 twoTx (Some pendingTrace) ''aa'' =
     Some (Inr \<lparr>persisted = twoTxTrace, returned = Inr twoTxTrace, requests = [''bb'']\<rparr>)"
    by code_simp
  note b = resume_from_cache [OF wt2 ne2, where spawn = "''aa''" and L = twoTx,
      unfolded l2 option.case]
  from b have b1: "resume (Some pendingTrace) ''aa'' =
     \<lparr>lineage = pendingTrace, currentTxid = Some ''bb'', walkGeneration = 1, fetched = []\<rparr>"
    by blast
  from b run2 have "\<exists>new reqs.
       persisted \<lparr>persisted = twoTxTrace, returned = Inr twoTxTrace, requests = [''bb'']\<rparr> =
         pendingTrace @ new \<and>
       requests \<lparr>persisted = twoTxTrace, returned = Inr twoTxTrace, requests = [''bb'']\<rparr> =
         ''bb'' # reqs \<and>
       prefix (map txid new)
         (requests \<lparr>persisted = twoTxTrace, returned = Inr twoTxTrace, requests = [''bb'']\<rparr>) \<and>
       length reqs \<le> length new"
    by blast
  then have b3: "\<exists>new reqs. twoTxTrace = pendingTrace @ new \<and> [''bb''] = ''bb'' # reqs \<and>
       prefix (map txid new) [''bb''] \<and> length reqs \<le> length new"
    by simp
  from a2 have a2': "\<exists>e w1. body twoTx (resume (Some oneTxTrace) ''aa'') ''aa'' = Inr (Next w1) \<and>
            (\<forall>k. walkLoop (Suc k) twoTx (resume (Some oneTxTrace) ''aa'') = walkLoop k twoTx w1) \<and>
            lineage w1 = [e] \<and> fetched w1 = [''aa''] \<and> txid e = ''aa'' \<and>
            entryGeneration e = 0 \<and> balance e = 100000"
    unfolding tx(3) by simp
  from a3 have a3': "\<exists>new reqs. persisted twoTxOutcome = new \<and> requests twoTxOutcome = ''aa'' # reqs \<and>
       new \<noteq> [] \<and> txid (hd new) = ''aa'' \<and> entryGeneration (hd new) = 0 \<and>
       balance (hd new) = 100000 \<and>
       prefix (map txid new) (requests twoTxOutcome) \<and> length reqs \<le> length new"
    unfolding tx(3) by simp
  from wt ne l1(1) a1 tx(1,2) dec a2' run a3' wt2 ne2 l2(1) b1 run2 b3 show ?thesis
    by blast
qed

text \<open>
  Claim C9 as stated fails: the dropped entry is re-derived only from what the ledger
  returns. On a ledger that answers 404, the walk resumed from the file \<open>oneTxTrace\<close>
  (one entry, alive, no \<open>spentBy\<close>) requests \<^verbatim>\<open>aa\<close>, leaves the loop at
  \<^verbatim>\<open>if (!tx) break\<close> and writes the file without the entry.
\<close>

theorem rechecked_entry_lost_on_404:
  "walkerTrace oneTxTrace \<and> oneTxTrace \<noteq> [] \<and> spentBy (last oneTxTrace) = None \<and>
   traceLineage 5 noTx (Some oneTxTrace) ''aa'' =
     Some (Inr \<lparr>persisted = [], returned = Inl TypeError, requests = [''aa'']\<rparr>)"
proof -
  have "traceLineage 5 oneTx None ''aa'' =
          Some (Inr \<lparr>persisted = oneTxTrace, returned = Inr oneTxTrace, requests = [''aa'']\<rparr>)"
    by code_simp
  from walkerTrace.fromSpawn [OF this] have "walkerTrace oneTxTrace" by simp
  moreover have "oneTxTrace \<noteq> []" "spentBy (last oneTxTrace) = None"
    by (simp_all add: oneTxTrace_def)
  moreover have "traceLineage 5 noTx (Some oneTxTrace) ''aa'' =
     Some (Inr \<lparr>persisted = [], returned = Inl TypeError, requests = [''aa'']\<rparr>)"
    by code_simp
  ultimately show ?thesis by simp
qed


subsection \<open>Hexadecimal strings and slices\<close>

lemma hexval_digits: "\<forall>m \<in> set [0..<16]. hexval (''0123456789abcdef'' ! m) = Some m"
  by code_simp

lemma hexval_hexDigit: "hexval (hexDigit n) = Some (n mod 16)"
proof -
  have "n mod 16 \<in> set [0..<16]" by simp
  with hexval_digits show ?thesis unfolding hexDigit_def by blast
qed

lemma hexDigit_plain:
  "\<not> isWhiteSpace (hexDigit n)" "hexDigit n \<noteq> CHR ''-''" "hexDigit n \<noteq> CHR ''+''"
  "hexDigit n \<noteq> CHR ''x''" "hexDigit n \<noteq> CHR ''X''"
proof -
  have "\<forall>c \<in> set ''0123456789abcdef''. \<not> isWhiteSpace c \<and> c \<noteq> CHR ''-'' \<and> c \<noteq> CHR ''+'' \<and>
          c \<noteq> CHR ''x'' \<and> c \<noteq> CHR ''X''"
    by (simp add: isWhiteSpace_def)
  moreover have "hexDigit n \<in> set ''0123456789abcdef''"
    unfolding hexDigit_def by (rule nth_mem) simp
  ultimately show "\<not> isWhiteSpace (hexDigit n)" "hexDigit n \<noteq> CHR ''-''" "hexDigit n \<noteq> CHR ''+''"
    "hexDigit n \<noteq> CHR ''x''" "hexDigit n \<noteq> CHR ''X''"
    by blast+
qed

lemma toHex_Nil: "toHex [] = []"
  by (simp add: toHex_def)

lemma toHex_Cons:
  "toHex (b # bs) = hexDigit (unat b div 16) # hexDigit (unat b mod 16) # toHex bs"
  by (simp add: toHex_def)

lemma toHex_append: "toHex (xs @ ys) = toHex xs @ toHex ys"
  by (simp add: toHex_def)

lemma length_toHex: "length (toHex bs) = 2 * length bs"
  by (induction bs) (simp_all add: toHex_Nil toHex_Cons)

lemma byte_nibbles: "16 * (unat (b :: byte) div 16 mod 16) + unat b mod 16 mod 16 = unat b"
proof -
  have "unat b < 256" using unsigned_less [of b, where ?'a = nat] by simp
  then show ?thesis by simp
qed

lemma parseInt16_byte: "parseInt16 (toHex [b]) = Num (uint b)"
proof -
  have "parseInt16 [hexDigit (unat b div 16), hexDigit (unat b mod 16)]
          = Num (int (16 * (unat b div 16 mod 16) + unat b mod 16 mod 16))"
    by (simp add: parseInt16_def Let_def hexDigit_plain hexval_hexDigit)
  then show ?thesis by (simp only: byte_nibbles toHex_Cons toHex_Nil) simp
qed

lemma bufferFromHex_toHex: "bufferFromHex (toHex bs) = bs"
proof (induction bs)
  case Nil
  then show ?case by (simp add: toHex_Nil)
next
  case (Cons b bs)
  have "word_of_nat (16 * (unat b div 16 mod 16) + unat b mod 16 mod 16) = b"
    by (simp only: byte_nibbles) simp
  with Cons show ?case by (simp add: toHex_Cons hexval_hexDigit)
qed

lemma slice_at:
  assumes "0 \<le> a" "a \<le> b" "length p = nat a" "length q = nat (b - a)"
  shows "slice (p @ q @ r) (Num a) (Num b) = q"
proof -
  have "sliceIndex (length (p @ q @ r)) (Num a) = length p"
    using assms by (simp add: sliceIndex_def min_def)
  moreover have "sliceIndex (length (p @ q @ r)) (Num b) = length p + length q"
    using assms by (simp add: sliceIndex_def min_def)
  ultimately show ?thesis by (simp add: slice_def)
qed

lemma sliceFrom_at:
  assumes "0 \<le> a" "length p = nat a"
  shows "sliceFrom (p @ q) (Num a) = q"
  using assms by (simp add: sliceFrom_def sliceIndex_def min_def)


lemma decodeFields_fixed:
  assumes "length sp = 32"
  shows "decodeFields (''01'' @ toHex [t] @ ''04'' @ toHex [g0, g1, g2, g3] @ ''20'' @ toHex sp @ rest)
         = Inr \<lparr>type = Num (uint t),
                generation = uint g0 + 256 * uint g1 + 65536 * uint g2 + 16777216 * uint g3,
                spawnTxid = toHex sp, payload = rest\<rparr>"
proof -
  define G where "G = toHex [g0, g1, g2, g3]"
  define T where "T = toHex [t]"
  define S where "S = toHex sp"
  define s where "s = ''01'' @ T @ ''04'' @ G @ ''20'' @ S @ rest"
  have len: "length T = 2" "length G = 8" "length S = 64"
    using assms by (simp_all add: T_def G_def S_def length_toHex)
  have "slice ([] @ ''01'' @ (T @ ''04'' @ G @ ''20'' @ S @ rest)) (Num 0) (Num 2) = ''01''"
    by (rule slice_at) simp_all
  then have s1: "slice s (Num 0) (Num 2) = ''01''" by (simp add: s_def)
  have "slice (''01'' @ T @ (''04'' @ G @ ''20'' @ S @ rest)) (Num 2) (Num 4) = T"
    by (rule slice_at) (simp_all add: len)
  then have s2: "slice s (Num 2) (Num 4) = T" by (simp add: s_def)
  have "slice ((''01'' @ T) @ ''04'' @ (G @ ''20'' @ S @ rest)) (Num 4) (Num 6) = ''04''"
    by (rule slice_at) (simp_all add: len)
  then have s3: "slice s (Num 4) (Num 6) = ''04''" by (simp add: s_def)
  have "slice ((''01'' @ T @ ''04'') @ G @ (''20'' @ S @ rest)) (Num 6) (Num 14) = G"
    by (rule slice_at) (simp_all add: len)
  then have s4: "slice s (Num 6) (Num 14) = G" by (simp add: s_def)
  have "slice ((''01'' @ T @ ''04'' @ G) @ ''20'' @ (S @ rest)) (Num 14) (Num 16) = ''20''"
    by (rule slice_at) (simp_all add: len)
  then have s5: "slice s (Num 14) (Num 16) = ''20''" by (simp add: s_def)
  have "slice ((''01'' @ T @ ''04'' @ G @ ''20'') @ S @ rest) (Num 16) (Num 80) = S"
    by (rule slice_at) (simp_all add: len)
  then have s6: "slice s (Num 16) (Num 80) = S" by (simp add: s_def)
  have "sliceFrom ((''01'' @ T @ ''04'' @ G @ ''20'' @ S) @ rest) (Num 80) = rest"
    by (rule sliceFrom_at) (simp_all add: len)
  then have s7: "sliceFrom s (Num 80) = rest" by (simp add: s_def)
  have p: "parseInt16 ''01'' = Num 1" "parseInt16 ''04'' = Num 4" "parseInt16 ''20'' = Num 32"
    by code_simp+
  have pT: "parseInt16 T = Num (uint t)" by (simp add: T_def parseInt16_byte)
  have bG: "readUInt32LE (bufferFromHex G) =
              Inr (uint g0 + 256 * uint g1 + 65536 * uint g2 + 16777216 * uint g3)"
    by (simp add: G_def bufferFromHex_toHex)
  have "decodeFields s = Inr \<lparr>type = Num (uint t),
                generation = uint g0 + 256 * uint g1 + 65536 * uint g2 + 16777216 * uint g3,
                spawnTxid = S, payload = rest\<rparr>"
    by (simp add: decodeFields_def Let_def s1 s2 s3 s4 s5 s6 s7 p pT bG)
  then show ?thesis by (simp add: s_def T_def G_def S_def)
qed

lemma indexOf_tag: "indexOf (''006a044f524731'' @ x) ORG1 = Some 6"
  by (simp add: ORG1_def)

lemma le32_value:
  assumes "0 \<le> (v :: int)" "v \<le> 4294967295"
  shows "uint (word_of_int v :: byte) + 256 * uint (word_of_int (v div 256) :: byte)
         + 65536 * uint (word_of_int (v div 65536) :: byte)
         + 16777216 * uint (word_of_int (v div 16777216) :: byte) = v"
proof -
  have u: "uint (word_of_int k :: byte) = k mod 256" for k
    by (simp add: uint_word_of_int_eq take_bit_eq_mod)
  define a where "a = v div 256"
  define b where "b = a div 256"
  define c where "c = b div 256"
  have b: "v div 65536 = b"
    using zdiv_zmult2_eq [of 256 v 256] by (simp add: a_def b_def)
  have c: "v div 16777216 = c"
    using zdiv_zmult2_eq [of 65536 v 256] b by (simp add: c_def)
  have "0 \<le> c" "c < 256" using assms c by simp_all
  then have c256: "c mod 256 = c" by simp
  have "v = 256 * a + v mod 256" by (simp add: a_def)
  moreover have "a = 256 * b + a mod 256" by (simp add: b_def)
  moreover have "b = 256 * c + b mod 256" by (simp add: c_def)
  ultimately have "v mod 256 + 256 * (a mod 256) + 65536 * (b mod 256) + 16777216 * c = v"
    by linarith
  then show ?thesis unfolding u b c c256 a_def [symmetric] .
qed

subsection \<open>Decoding an encoded annotation\<close>

lemma pushData_short: "length buf < 76 \<Longrightarrow> pushData buf = word_of_nat (length buf) # buf"
  by (simp add: pushData_def)

lemma toHex_consts:
  "toHex [0, 106, 4, 79, 82, 71, 49] = ''006a044f524731''"
  "toHex [1] = ''01''" "toHex [4] = ''04''" "toHex [32] = ''20''"
  by code_simp+

lemma buildSafeDataOut_hex:
  assumes "length sp = 32"
  shows "toHex (buildSafeDataOut ([ORG1bytes, [t], [g0, g1, g2, g3], sp] @ segs)) =
           ''006a044f524731'' @ (''01'' @ toHex [t] @ ''04'' @ toHex [g0, g1, g2, g3] @ ''20''
              @ toHex sp @ toHex (concat (map pushData segs)))"
proof -
  have "buildSafeDataOut ([ORG1bytes, [t], [g0, g1, g2, g3], sp] @ segs) =
          [0, 106, 4, 79, 82, 71, 49] @ [1] @ [t] @ [4] @ [g0, g1, g2, g3] @ [32] @ sp
            @ concat (map pushData segs)"
    using assms by (simp add: buildSafeDataOut_def ORG1bytes_def pushData_short)
  then show ?thesis
    by (simp only: toHex_append toHex_consts)
qed

lemma decodeORG1_annotation:
  assumes "length sp = 32"
  shows "decodeORG1 (scriptTx (buildSafeDataOut ([ORG1bytes, [t], [g0, g1, g2, g3], sp] @ segs))) =
           Inr (Some \<lparr>type = Num (uint t),
                generation = uint g0 + 256 * uint g1 + 65536 * uint g2 + 16777216 * uint g3,
                spawnTxid = toHex sp, payload = toHex (concat (map pushData segs))\<rparr>)"
proof -
  define after where "after = ''01'' @ toHex [t] @ ''04'' @ toHex [g0, g1, g2, g3] @ ''20''
              @ toHex sp @ toHex (concat (map pushData segs))"
  define h where "h = ''006a044f524731'' @ after"
  have h: "toHex (buildSafeDataOut ([ORG1bytes, [t], [g0, g1, g2, g3], sp] @ segs)) = h"
    unfolding h_def after_def by (rule buildSafeDataOut_hex [OF assms])
  have idx: "indexOf h ORG1 = Some 6" unfolding h_def by (rule indexOf_tag)
  have ne: "h \<noteq> []" by (simp add: h_def)
  have af: "sliceFrom h (Num 14) = after"
    unfolding h_def by (rule sliceFrom_at) simp_all
  have len: "78 \<le> length after"
    using assms by (simp add: after_def length_toHex)
  have dec: "decodeFields after = Inr \<lparr>type = Num (uint t),
                generation = uint g0 + 256 * uint g1 + 65536 * uint g2 + 16777216 * uint g3,
                spawnTxid = toHex sp, payload = toHex (concat (map pushData segs))\<rparr>"
    unfolding after_def by (rule decodeFields_fixed [OF assms])
  have "decodeOuts [\<lparr>sats = 0, hex = Some h, addresses = None\<rparr>] =
          Inr (Some \<lparr>type = Num (uint t),
                generation = uint g0 + 256 * uint g1 + 65536 * uint g2 + 16777216 * uint g3,
                spawnTxid = toHex sp, payload = toHex (concat (map pushData segs))\<rparr>)"
    using idx ne af len dec by simp
  then show ?thesis
    unfolding decodeORG1_def scriptTx_def h by simp
qed

text \<open>
  Claim C3, as the code has it. For a type from 0 to 255, a generation from 0 to
  \<open>2 ^ 32 - 1\<close> and a 32-byte spawn transaction identifier, the encoders build the
  script \<^verbatim>\<open>buildSafeDataOut([ORG1, type, generation, spawn])\<close>, and decoding that
  script, with any further pushes after it, returns the type, the generation, the
  identifier in hexadecimal, and as payload everything after the third push verbatim:
  nothing for the script the encoders build, and for further pushes the pushes as
  serialised, each with its length byte.
\<close>

theorem decode_of_encode:
  assumes "0 \<le> ty" "ty \<le> 255" "0 \<le> gen" "gen \<le> 4294967295" "length sp = 32"
  shows "\<exists>typeBytes genBytes.
           writeUInt8 ty = Inr typeBytes \<and> writeUInt32LE gen = Inr genBytes \<and>
           opReturnOut ty gen sp =
             Inr \<lparr>script = RawScript (buildSafeDataOut [ORG1bytes, typeBytes, genBytes, sp]),
                  satoshis = 0\<rparr> \<and>
           (\<forall>segs. decodeORG1 (scriptTx (buildSafeDataOut ([ORG1bytes, typeBytes, genBytes, sp] @ segs))) =
              Inr (Some \<lparr>type = Num ty, generation = gen, spawnTxid = toHex sp,
                         payload = toHex (concat (map pushData segs))\<rparr>))"
proof -
  define typeBytes :: "byte list" where "typeBytes = [word_of_int ty]"
  define genBytes :: "byte list" where
    "genBytes = [word_of_int gen, word_of_int (gen div 256), word_of_int (gen div 65536),
                 word_of_int (gen div 16777216)]"
  have w8: "writeUInt8 ty = Inr typeBytes"
    using assms by (simp add: writeUInt8_def typeBytes_def)
  have w32: "writeUInt32LE gen = Inr genBytes"
    using assms by (simp add: writeUInt32LE_def genBytes_def)
  have out: "opReturnOut ty gen sp =
             Inr \<lparr>script = RawScript (buildSafeDataOut [ORG1bytes, typeBytes, genBytes, sp]),
                  satoshis = 0\<rparr>"
    by (simp add: opReturnOut_def w8 w32)
  have ut: "uint (word_of_int ty :: byte) = ty"
    using assms by (simp add: uint_word_of_int_eq take_bit_eq_mod)
  have "decodeORG1 (scriptTx (buildSafeDataOut ([ORG1bytes, typeBytes, genBytes, sp] @ segs))) =
          Inr (Some \<lparr>type = Num ty, generation = gen, spawnTxid = toHex sp,
                     payload = toHex (concat (map pushData segs))\<rparr>)" for segs
    unfolding typeBytes_def genBytes_def
    by (simp only: decodeORG1_annotation [OF assms(5)] ut le32_value [OF assms(3,4)])
  with w8 w32 out show ?thesis by blast
qed


theorem decode_of_encode_witness:
  "(0 :: int) \<le> 7 \<and> (7 :: int) \<le> 255 \<and> (0 :: int) \<le> 5 \<and> (5 :: int) \<le> 4294967295 \<and>
   length (replicate 32 (0 :: byte)) = 32 \<and>
   (\<exists>typeBytes genBytes.
           writeUInt8 7 = Inr typeBytes \<and> writeUInt32LE 5 = Inr genBytes \<and>
           opReturnOut 7 5 (replicate 32 0) =
             Inr \<lparr>script = RawScript (buildSafeDataOut [ORG1bytes, typeBytes, genBytes, replicate 32 0]),
                  satoshis = 0\<rparr> \<and>
           (\<forall>segs. decodeORG1 (scriptTx (buildSafeDataOut ([ORG1bytes, typeBytes, genBytes, replicate 32 0] @ segs))) =
              Inr (Some \<lparr>type = Num 7, generation = 5, spawnTxid = toHex (replicate 32 0),
                         payload = toHex (concat (map pushData segs))\<rparr>)))"
  using decode_of_encode [of 7 5 "replicate 32 0"] by simp

text \<open>
  Claim C3 as stated fails on the payload: for a record with the one-byte payload
  \<^verbatim>\<open>ab\<close>, pushed after the three fields, the decoder returns the payload
  \<^verbatim>\<open>01ab\<close>.
\<close>

theorem payload_keeps_length_byte:
  "decodeORG1 (scriptTx (buildSafeDataOut [ORG1bytes, [0], [0, 0, 0, 0], replicate 32 0, [171]])) =
     Inr (Some \<lparr>type = Num 0, generation = 0, spawnTxid = replicate 64 CHR ''0'',
                payload = ''01ab''\<rparr>) \<and>
   toHex [171] = ''ab''"
  by code_simp

subsection \<open>Where the decoder looks for the tag\<close>



subsection \<open>Reproduce: the contract method and the builder of claim.cjs\<close>

lemma leBytes4:
  "leBytes 4 v = [word_of_int v, word_of_int (v div 256), word_of_int (v div 65536),
                  word_of_int (v div 16777216)]"
proof -
  have a: "v div 256 div 256 = v div 65536"
    using zdiv_zmult2_eq [of 256 v 256] by simp
  have b: "v div 65536 div 256 = v div 16777216"
    using zdiv_zmult2_eq [of 256 v 65536] by simp
  show ?thesis by (simp add: numeral_eq_Suc a b)
qed

lemma opReturnOut_annotation:
  assumes "0 \<le> organismType org" "organismType org \<le> 255" "0 \<le> gen" "gen \<le> 4294967295"
    "length (orgSpawnTxid org) = 32"
  shows "opReturnOut (organismType org) gen (orgSpawnTxid org) = Inr (annotation org gen)"
  using assms
  by (simp add: opReturnOut_def writeUInt32LE_def writeUInt8_def buildSafeDataOut_def
      ORG1bytes_def pushData_short annotation_def)

lemma opReturnScript_annotation:
  assumes "0 \<le> organismType org" "organismType org < 128" "0 \<le> orgGeneration org"
    "orgGeneration org < 2147483648" "length (orgSpawnTxid org) = 32"
  shows "opReturnScript org = Inr (case script (annotation org (orgGeneration org)) of RawScript s \<Rightarrow> s | _ \<Rightarrow> [])"
proof -
  have "int2ByteString (organismType org) 1 = Inr [word_of_int (organismType org)]"
    using assms by (simp add: int2ByteString_def)
  moreover have "int2ByteString (orgGeneration org) 4 = Inr (leBytes 4 (orgGeneration org))"
    using assms by (simp add: int2ByteString_def)
  ultimately show ?thesis
    by (simp add: opReturnScript_def leBytes4 annotation_def)
qed


lemma newOutput_natural:
  "0 \<le> v \<Longrightarrow> v \<le> 2 ^ 53 \<Longrightarrow> newOutput s v = Inr \<lparr>script = s, satoshis = v\<rparr>"
  by (simp add: newOutput_def toNumber_def)

lemma buildOutput_eq:
  "buildOutput s a =
     (if \<bar>a\<bar> < 2 ^ 63
      then Inr \<lparr>script = s, satoshis = (if a < 0 then \<bar>a\<bar> + 2 ^ 63 else a)\<rparr>
      else Inl Int2ByteStringError)"
  by (simp add: buildOutput_def int2ByteString_def)

lemma opReturnScript_eq:
  assumes "0 \<le> organismType org" "0 \<le> orgGeneration org"
  shows "opReturnScript org =
           (if organismType org < 128 \<and> orgGeneration org < 2147483648
            then Inr ([0, 106, 4, 79, 82, 71, 49, 1, word_of_int (organismType org), 4,
                       word_of_int (orgGeneration org), word_of_int (orgGeneration org div 256),
                       word_of_int (orgGeneration org div 65536),
                       word_of_int (orgGeneration org div 16777216), 32]
                      @ orgSpawnTxid org)
            else Inl Int2ByteStringError)"
proof -
  have t: "int2ByteString (organismType org) (Suc 0) =
             (if organismType org < 128 then Inr [word_of_int (organismType org)]
              else Inl Int2ByteStringError)"
    using assms(1) by (simp add: int2ByteString_def)
  have g: "int2ByteString (orgGeneration org) 4 =
             (if orgGeneration org < 2147483648 then Inr (leBytes 4 (orgGeneration org))
              else Inl Int2ByteStringError)"
    using assms(2) by (simp add: int2ByteString_def)
  show ?thesis by (simp add: opReturnScript_def t g leBytes4)
qed

lemma claimOutputs_eq:
  assumes "0 \<le> organismType org" "0 \<le> orgGeneration org" "0 \<le> reward org"
    and "nextBalance = bal - reward org - fee org"
    and "dustLimit org \<le> nextBalance \<longrightarrow> 0 \<le> nextBalance"
    and "expected = (if dustLimit org \<le> nextBalance
                       then [\<lparr>script = LockingScript (org\<lparr>orgGeneration := orgGeneration org + 1\<rparr>),
                              satoshis = nextBalance\<rparr>]
                       else [])
                      @ [annotation org (orgGeneration org + 1),
                         \<lparr>script = P2PKH pkh, satoshis = reward org\<rparr>]"
  shows "claimOutputs org bal pkh =
           (if organismType org < 128 \<and> orgGeneration org + 1 < 2147483648 \<and>
               reward org < 2 ^ 63 \<and> (dustLimit org \<le> nextBalance \<longrightarrow> nextBalance < 2 ^ 63)
            then Inr expected else Inl Int2ByteStringError)"
proof -
  have op: "opReturnScript (org\<lparr>orgGeneration := orgGeneration org + 1\<rparr>) =
           (if organismType org < 128 \<and> orgGeneration org + 1 < 2147483648
            then Inr ([0, 106, 4, 79, 82, 71, 49, 1, word_of_int (organismType org), 4,
                       word_of_int (orgGeneration org + 1),
                       word_of_int ((orgGeneration org + 1) div 256),
                       word_of_int ((orgGeneration org + 1) div 65536),
                       word_of_int ((orgGeneration org + 1) div 16777216), 32]
                      @ orgSpawnTxid org)
            else Inl Int2ByteStringError)"
    using opReturnScript_eq [of "org\<lparr>orgGeneration := orgGeneration org + 1\<rparr>"] assms(1,2)
    by simp
  show ?thesis
  proof (cases "dustLimit org \<le> nextBalance")
    case True
    with assms(5) have "0 \<le> nextBalance" by simp
    with True assms(3,4,6) show ?thesis
      by (simp add: claimOutputs_def Let_def buildOutput_eq op annotation_def)
  next
    case False
    with assms(3,4,6) show ?thesis
      by (simp add: claimOutputs_def Let_def buildOutput_eq op annotation_def)
  qed
qed

lemma Organism_claim_eq:
  assumes "0 \<le> organismType org" "0 \<le> orgGeneration org" "0 \<le> reward org"
    and "nextBalance = bal - reward org - fee org"
    and "dustLimit org \<le> nextBalance \<longrightarrow> 0 \<le> nextBalance"
    and "expected = (if dustLimit org \<le> nextBalance
                       then [\<lparr>script = LockingScript (org\<lparr>orgGeneration := orgGeneration org + 1\<rparr>),
                              satoshis = nextBalance\<rparr>]
                       else [])
                      @ [annotation org (orgGeneration org + 1),
                         \<lparr>script = P2PKH pkh, satoshis = reward org\<rparr>]"
  shows "Organism_claim org bal pkh txOutputs =
           (if organismType org < 128 \<and> orgGeneration org + 1 < 2147483648 \<and>
               reward org < 2 ^ 63 \<and> (dustLimit org \<le> nextBalance \<longrightarrow> nextBalance < 2 ^ 63)
            then if txOutputs = expected
                 then Inr (org\<lparr>orgGeneration := orgGeneration org + 1\<rparr>)
                 else Inl AssertError
            else Inl Int2ByteStringError)"
  unfolding Organism_claim_def claimOutputs_eq [OF assms] by simp

lemma claim_builds:
  assumes "claimAddress i = Some pkh" "\<not> truthy (claimSpent i)" "claimOrganism i = org"
    and "claimBalance i = bal"
    and "0 \<le> organismType org" "organismType org \<le> 255"
    and "0 \<le> orgGeneration org" "orgGeneration org + 1 \<le> 4294967295"
    and "length (orgSpawnTxid org) = 32"
    and "0 \<le> reward org" "reward org \<le> 2 ^ 53"
    and "nextBalance = bal - reward org - fee org"
    and "dustLimit org \<le> nextBalance \<longrightarrow> 0 \<le> nextBalance \<and> nextBalance \<le> 2 ^ 53"
    and "expected = (if dustLimit org \<le> nextBalance
                       then [\<lparr>script = LockingScript (org\<lparr>orgGeneration := orgGeneration org + 1\<rparr>),
                              satoshis = nextBalance\<rparr>]
                       else [])
                      @ [annotation org (orgGeneration org + 1),
                         \<lparr>script = P2PKH pkh, satoshis = reward org\<rparr>]"
  shows "claim i = Inr expected"
proof -
  have op: "opReturnOut (organismType org) (orgGeneration org + 1) (orgSpawnTxid org) =
          Inr (annotation org (orgGeneration org + 1))"
    using assms(5-9) by (intro opReturnOut_annotation) simp_all
  have rw: "newOutput (P2PKH pkh) (reward org) = Inr \<lparr>script = P2PKH pkh, satoshis = reward org\<rparr>"
    using assms(10,11) by (rule newOutput_natural)
  show ?thesis
  proof (cases "dustLimit org \<le> nextBalance")
    case True
    with assms(13) have "0 \<le> nextBalance" "nextBalance \<le> 2 ^ 53" by simp_all
    then have "newOutput (LockingScript (org\<lparr>orgGeneration := orgGeneration org + 1\<rparr>)) nextBalance
           = Inr \<lparr>script = LockingScript (org\<lparr>orgGeneration := orgGeneration org + 1\<rparr>),
                  satoshis = nextBalance\<rparr>"
      by (rule newOutput_natural)
    with True op rw assms(1-4,12,14) show ?thesis
      by (simp add: claim_def Let_def)
  next
    case False
    with op rw assms(1-4,12,14) show ?thesis
      by (simp add: claim_def Let_def)
  qed
qed


text \<open>
  Claim C2, as the code has it. Neither the contract method nor \<^verbatim>\<open>claim.cjs\<close>
  compares \<open>balance - reward - fee\<close> with 0, and there is no \<open>InsufficientBalance\<close>.
  Take an instance the contract can encode and the builder can write (type from 0 to 127,
  generation not negative and next generation below \<open>2 ^ 31\<close>, 32-byte spawn identifier,
  reward from 0 to \<open>2 ^ 53\<close>), a dust limit that is not negative, a valid claimer
  address and an unspent output. When \<open>balance - reward - fee\<close> is negative it is below
  the dust limit: the builder of \<^verbatim>\<open>claim.cjs\<close> assembles the annotation with
  generation + 1 and the reward output of \<open>reward\<close> to the claimer, with no continuation,
  and the contract method accepts this list of outputs and no other.
\<close>

theorem reproduce_below_zero_not_rejected:
  assumes "claimAddress i = Some addr" "\<not> truthy (claimSpent i)" "claimOrganism i = org"
    and "claimBalance i = bal"
    and "0 \<le> organismType org" "organismType org < 128"
    and "0 \<le> orgGeneration org" "orgGeneration org + 1 < 2147483648"
    and "length (orgSpawnTxid org) = 32"
    and "0 \<le> reward org" "reward org \<le> 2 ^ 53"
    and "0 \<le> dustLimit org"
    and "bal - reward org - fee org < 0"
  shows "claim i = Inr [annotation org (orgGeneration org + 1),
                        \<lparr>script = P2PKH addr, satoshis = reward org\<rparr>] \<and>
         Organism_claim org bal addr txOutputs =
           (if txOutputs = [annotation org (orgGeneration org + 1),
                            \<lparr>script = P2PKH addr, satoshis = reward org\<rparr>]
            then Inr (org\<lparr>orgGeneration := orgGeneration org + 1\<rparr>)
            else Inl AssertError)"
proof -
  define nextBalance where "nextBalance = bal - reward org - fee org"
  have dead: "\<not> dustLimit org \<le> nextBalance"
    using assms(12,13) by (simp add: nextBalance_def)
  have outs: "[annotation org (orgGeneration org + 1), \<lparr>script = P2PKH addr, satoshis = reward org\<rparr>] =
          (if dustLimit org \<le> nextBalance
           then [\<lparr>script = LockingScript (org\<lparr>orgGeneration := orgGeneration org + 1\<rparr>),
                  satoshis = nextBalance\<rparr>]
           else [])
          @ [annotation org (orgGeneration org + 1), \<lparr>script = P2PKH addr, satoshis = reward org\<rparr>]"
    using dead by simp
  have small: "reward org < 2 ^ 63"
    using assms(11) by simp
  have "claim i = Inr [annotation org (orgGeneration org + 1),
                        \<lparr>script = P2PKH addr, satoshis = reward org\<rparr>]"
    using assms(1-5) _ assms(7) _ assms(9-11) nextBalance_def _ outs
  proof (rule claim_builds)
    show "organismType org \<le> 255" using assms(6) by simp
    show "orgGeneration org + 1 \<le> 4294967295" using assms(8) by simp
    show "dustLimit org \<le> nextBalance \<longrightarrow> 0 \<le> nextBalance \<and> nextBalance \<le> 2 ^ 53"
      using dead by simp
  qed
  moreover have "Organism_claim org bal addr txOutputs =
           (if txOutputs = [annotation org (orgGeneration org + 1),
                            \<lparr>script = P2PKH addr, satoshis = reward org\<rparr>]
            then Inr (org\<lparr>orgGeneration := orgGeneration org + 1\<rparr>)
            else Inl AssertError)"
    using Organism_claim_eq [where pkh = addr and txOutputs = txOutputs,
        OF assms(5,7,10) nextBalance_def _ outs]
      dead assms(6,8) small by simp
  ultimately show ?thesis by simp
qed

theorem reproduce_below_zero_not_rejected_witness:
  "claim \<lparr>claimAddress = Some claimer, claimSpent = None, claimOrganism = scenarioA,
          claimBalance = 3999\<rparr> =
     Inr [annotation scenarioA 1, \<lparr>script = P2PKH claimer, satoshis = 1000\<rparr>] \<and>
   Organism_claim scenarioA 3999 claimer
     [annotation scenarioA 1, \<lparr>script = P2PKH claimer, satoshis = 1000\<rparr>] =
     Inr (scenarioA\<lparr>orgGeneration := 1\<rparr>) \<and>
   Organism_claim scenarioA 3999 claimer
     [\<lparr>script = LockingScript (scenarioA\<lparr>orgGeneration := 1\<rparr>), satoshis = 0\<rparr>,
      annotation scenarioA 1, \<lparr>script = P2PKH claimer, satoshis = 1000\<rparr>] =
     Inl AssertError"
proof -
  define i where "i = \<lparr>claimAddress = Some claimer, claimSpent = None, claimOrganism = scenarioA,
          claimBalance = 3999\<rparr>"
  have h: "claimAddress i = Some claimer" "\<not> truthy (claimSpent i)" "claimOrganism i = scenarioA"
    "claimBalance i = 3999"
    "0 \<le> organismType scenarioA" "organismType scenarioA < 128"
    "0 \<le> orgGeneration scenarioA" "orgGeneration scenarioA + 1 < 2147483648"
    "length (orgSpawnTxid scenarioA) = 32"
    "0 \<le> reward scenarioA" "reward scenarioA \<le> 2 ^ 53"
    "0 \<le> dustLimit scenarioA"
    "3999 - reward scenarioA - fee scenarioA < 0"
    by (simp_all add: i_def scenarioA_def truthy_def)
  have g: "orgGeneration scenarioA + 1 = 1" "reward scenarioA = 1000"
    by (simp_all add: scenarioA_def)
  have a: "[\<lparr>script = LockingScript (scenarioA\<lparr>orgGeneration := 1\<rparr>), satoshis = 0\<rparr>,
      annotation scenarioA 1, \<lparr>script = P2PKH claimer, satoshis = 1000\<rparr>] \<noteq>
      [annotation scenarioA 1, \<lparr>script = P2PKH claimer, satoshis = 1000\<rparr>]"
    by simp
  from reproduce_below_zero_not_rejected [OF h,
      of "[annotation scenarioA 1, \<lparr>script = P2PKH claimer, satoshis = 1000\<rparr>]"]
    reproduce_below_zero_not_rejected [OF h,
      of "[\<lparr>script = LockingScript (scenarioA\<lparr>orgGeneration := 1\<rparr>), satoshis = 0\<rparr>,
      annotation scenarioA 1, \<lparr>script = P2PKH claimer, satoshis = 1000\<rparr>]"]
  show ?thesis
    unfolding g i_def [symmetric] using a by simp
qed

text \<open>
  Claim C2 as stated fails: at balance 3500 with reward 1000 and fee 3000 the next
  balance is \<open>-500\<close>, and the builder returns, and the contract method accepts, the
  annotation and a reward output of 1000.
\<close>

theorem negative_next_balance_pays_reward:
  "(3500 :: int) - reward scenarioA - fee scenarioA < 0 \<and>
   claim \<lparr>claimAddress = Some claimer, claimSpent = None, claimOrganism = scenarioA,
          claimBalance = 3500\<rparr> =
     Inr [annotation scenarioA 1, \<lparr>script = P2PKH claimer, satoshis = 1000\<rparr>] \<and>
   Organism_claim scenarioA 3500 claimer
     [annotation scenarioA 1, \<lparr>script = P2PKH claimer, satoshis = 1000\<rparr>] =
     Inr (scenarioA\<lparr>orgGeneration := 1\<rparr>)"
  by code_simp

text \<open>
  Claim C5 at a type from 128 on. \<^verbatim>\<open>docs/SCHEMA.md\<close> gives the type as one
  unsigned byte, 0 to 255, and \<^verbatim>\<open>spawn.cjs\<close> and the builder of
  \<^verbatim>\<open>claim.cjs\<close> write it with \<^verbatim>\<open>writeUInt8\<close>; the contract method
  writes it with \<^verbatim>\<open>int2ByteString(this.organismType, 1n)\<close>, which has no
  one-byte encoding from 128 on. For the organism of scenario A with type 200, at balance
  100000: the builder assembles the continuation of 96000 at generation 1, the annotation
  and the reward output of 1000, and the contract method fails with the encoding error
  whatever the outputs of the spending transaction are. Where the contract can encode the
  instance, \<open>Organism_claim_eq\<close> and \<open>claim_builds\<close> give the outputs of the claim.
\<close>

theorem species_200_cannot_reproduce:
  "claim \<lparr>claimAddress = Some claimer, claimSpent = None,
          claimOrganism = scenarioA\<lparr>organismType := 200\<rparr>, claimBalance = 100000\<rparr> =
     Inr [\<lparr>script = LockingScript (scenarioA\<lparr>organismType := 200, orgGeneration := 1\<rparr>),
           satoshis = 96000\<rparr>,
          annotation (scenarioA\<lparr>organismType := 200\<rparr>) 1,
          \<lparr>script = P2PKH claimer, satoshis = 1000\<rparr>] \<and>
   Organism_claim (scenarioA\<lparr>organismType := 200\<rparr>) 100000 claimer txOutputs =
     Inl Int2ByteStringError"
proof -
  have "claim \<lparr>claimAddress = Some claimer, claimSpent = None,
          claimOrganism = scenarioA\<lparr>organismType := 200\<rparr>, claimBalance = 100000\<rparr> =
     Inr [\<lparr>script = LockingScript (scenarioA\<lparr>organismType := 200, orgGeneration := 1\<rparr>),
           satoshis = 96000\<rparr>,
          annotation (scenarioA\<lparr>organismType := 200\<rparr>) 1,
          \<lparr>script = P2PKH claimer, satoshis = 1000\<rparr>]"
    by code_simp
  moreover have "Organism_claim (scenarioA\<lparr>organismType := 200\<rparr>) 100000 claimer txOutputs =
     Inl Int2ByteStringError"
    by (simp add: Organism_claim_def claimOutputs_def Let_def scenarioA_def buildOutput_eq
        opReturnScript_def int2ByteString_def)
  ultimately show ?thesis by simp
qed

subsection \<open>Feed: the builder of fund.cjs\<close>

text \<open>
  Claim C7. For a positive amount \<open>a\<close>, with the arguments given, the wallet present,
  the output unspent and funds of at least \<open>a\<close> plus the fee, the builder of
  \<^verbatim>\<open>fund.cjs\<close> assembles the continuation of the same instance (generation
  unchanged) with \<open>balance + a\<close>, the annotation with the unchanged generation, type and
  spawn identifier, and at most one more output, the change back to the funder: no
  reward output. The witness is scenario C: 50000 fed with 20000 gives 70000.
\<close>

theorem feed_outputs:
  assumes "truthy (TXID i)" "AMOUNT i = Num a" "0 < a" "FEE i = Num f"
    and "walletExists i" "\<not> truthy (fundSpent i)"
    and "utxos i = Some us" "us \<noteq> []" "a + f \<le> sum_list us"
    and "fundOrganism i = org"
    and "0 \<le> organismType org" "organismType org \<le> 255"
    and "0 \<le> orgGeneration org" "orgGeneration org \<le> 4294967295"
    and "length (orgSpawnTxid org) = 32"
  shows "fund i =
           Inr ([\<lparr>script = LockingScript org, satoshis = fundBalance i + a\<rparr>,
                 annotation org (orgGeneration org)]
                @ (if 546 < sum_list us - a - f
                   then [\<lparr>script = P2PKH (fundingAddress i), satoshis = sum_list us - a - f\<rparr>]
                   else []))"
proof -
  have op: "opReturnOut (organismType org) (orgGeneration org) (orgSpawnTxid org) =
          Inr (annotation org (orgGeneration org))"
    using assms(11-15) by (rule opReturnOut_annotation)
  have ch: "fundBalance i + sum_list us - (fundBalance i + a) - f = sum_list us - a - f"
    by simp
  have "fundTxBuilder i (Num (fundBalance i + a)) (Num (sum_list us - a - f))
          (546 < sum_list us - a - f) =
        Inr ([\<lparr>script = LockingScript org, satoshis = fundBalance i + a\<rparr>,
                 annotation org (orgGeneration org)]
                @ (if 546 < sum_list us - a - f
                   then [\<lparr>script = P2PKH (fundingAddress i), satoshis = sum_list us - a - f\<rparr>]
                   else []))"
    using assms(10) op by (simp add: fundTxBuilder_def Let_def)
  moreover have "fund i = fundTxBuilder i (Num (fundBalance i + a)) (Num (sum_list us - a - f))
          (546 < sum_list us - a - f)"
    using assms(1-9) by (simp add: fund_def Let_def falsyNum_def ch)
  ultimately show ?thesis by simp
qed

theorem feed_outputs_witness:
  "fund scenarioC =
     Inr [\<lparr>script = LockingScript scenarioA, satoshis = 70000\<rparr>,
          annotation scenarioA 0,
          \<lparr>script = P2PKH funder, satoshis = 7000\<rparr>] \<and>
   fundBalance scenarioC = 50000 \<and> AMOUNT scenarioC = Num 20000 \<and>
   orgGeneration scenarioA = 0"
proof -
  have "fund scenarioC =
           Inr ([\<lparr>script = LockingScript scenarioA, satoshis = fundBalance scenarioC + 20000\<rparr>,
                 annotation scenarioA (orgGeneration scenarioA)]
                @ (if (546 :: int) < sum_list [30000] - 20000 - 3000
                   then [\<lparr>script = P2PKH (fundingAddress scenarioC),
                          satoshis = sum_list [30000] - 20000 - 3000\<rparr>]
                   else []))"
    by (rule feed_outputs) (simp_all add: scenarioC_def scenarioA_def truthy_def)
  then show ?thesis by (simp add: scenarioC_def scenarioA_def)
qed

text \<open>
  Claim C6 against the code: the argument check \<^verbatim>\<open>!AMOUNT\<close> stops the script for
  the amounts 0 and \<^verbatim>\<open>NaN\<close>, but not for a negative amount. With the amount
  \<open>-5\<close> the script goes on and its builder assembles a continuation with the balance
  lowered by 5.
\<close>

theorem fund_accepts_negative_amount:
  "fund (scenarioC\<lparr>AMOUNT := Num (- 5)\<rparr>) =
     Inr [\<lparr>script = LockingScript scenarioA, satoshis = 49995\<rparr>,
          annotation scenarioA 0,
          \<lparr>script = P2PKH funder, satoshis = 27005\<rparr>] \<and>
   fund (scenarioC\<lparr>AMOUNT := Num 0\<rparr>) = Inl Exit1 \<and>
   fund (scenarioC\<lparr>AMOUNT := NaN\<rparr>) = Inl Exit1"
  by code_simp

theorem fund_accepts_negative_amount_witness:
  "truthy (TXID (scenarioC\<lparr>AMOUNT := Num (- 5)\<rparr>)) \<and>
   \<not> falsyNum (AMOUNT (scenarioC\<lparr>AMOUNT := Num (- 5)\<rparr>)) \<and>
   fund (scenarioC\<lparr>AMOUNT := Num (- 5)\<rparr>) \<noteq> Inl Exit1 \<and>
   map satoshis (case fund (scenarioC\<lparr>AMOUNT := Num (- 5)\<rparr>) of Inr outs \<Rightarrow> outs | Inl e \<Rightarrow> []) =
     [49995, 0, 27005]"
  using fund_accepts_negative_amount
  by (simp add: scenarioC_def truthy_def falsyNum_def annotation_def)

end
